theory Spec2Isabelle
  imports Main "HOL-Library.Word"
begin

section \<open>JavaScript strings\<close>

text \<open>
  A JavaScript string is a sequence of 16-bit code units. String literals of the
  source are written \<open>js ''...''\<close>.
\<close>

type_synonym code_unit = "16 word"
type_synonym jsstring = "code_unit list"

definition cu :: "char \<Rightarrow> code_unit" where
  "cu c = of_char c"

definition js :: "string \<Rightarrow> jsstring" where
  "js s = map cu s"

text \<open>The code units that \<open>trim\<close> removes and that \<open>\s\<close> matches: WhiteSpace and LineTerminator.\<close>

definition isLineTerminator :: "code_unit \<Rightarrow> bool" where
  "isLineTerminator c = (c = 0x000A \<or> c = 0x000D \<or> c = 0x2028 \<or> c = 0x2029)"

definition isWhiteSpace :: "code_unit \<Rightarrow> bool" where
  "isWhiteSpace c =
     (c = 0x0009 \<or> c = 0x000B \<or> c = 0x000C \<or> c = 0xFEFF \<or> c = 0x0020 \<or> c = 0x00A0 \<or>
      c = 0x1680 \<or> (0x2000 \<le> c \<and> c \<le> 0x200A) \<or> c = 0x202F \<or> c = 0x205F \<or> c = 0x3000)"

definition is_ws :: "code_unit \<Rightarrow> bool" where
  "is_ws c = (isWhiteSpace c \<or> isLineTerminator c)"

definition trimLeft :: "jsstring \<Rightarrow> jsstring" where
  "trimLeft s = dropWhile is_ws s"

definition trimEnd :: "jsstring \<Rightarrow> jsstring" where
  "trimEnd s = rev (dropWhile is_ws (rev s))"

definition trim :: "jsstring \<Rightarrow> jsstring" where
  "trim s = trimEnd (trimLeft s)"

text \<open>
  Positions in strings and arrays are JavaScript numbers; they are modelled as integers,
  which may be negative or past the end.

  \<open>s.substring(start, stop)\<close>: both bounds are clamped to \<open>0 .. s.length\<close> and swapped
  when out of order. \<open>substring_from\<close> is the call with one argument.
\<close>

definition substring :: "jsstring \<Rightarrow> int \<Rightarrow> int \<Rightarrow> jsstring" where
  "substring s start stop =
     (let len = int (length s);
          finalStart = min (max start 0) len;
          finalEnd = min (max stop 0) len;
          lo = min finalStart finalEnd;
          hi = max finalStart finalEnd
      in take (nat (hi - lo)) (drop (nat lo) s))"

definition substring_from :: "jsstring \<Rightarrow> int \<Rightarrow> jsstring" where
  "substring_from s start = substring s start (int (length s))"

definition startsWith :: "jsstring \<Rightarrow> jsstring \<Rightarrow> bool" where
  "startsWith s p = (take (length p) s = p)"

definition endsWith :: "jsstring \<Rightarrow> jsstring \<Rightarrow> bool" where
  "endsWith s p = (length p \<le> length s \<and> drop (length s - length p) s = p)"

text \<open>\<open>s.indexOf(p)\<close>: the least position at which \<open>p\<close> occurs in \<open>s\<close>, or \<open>-1\<close>.\<close>

fun indexOf_from :: "jsstring \<Rightarrow> jsstring \<Rightarrow> nat \<Rightarrow> int" where
  "indexOf_from [] p k = (if p = [] then int k else - 1)"
| "indexOf_from (x # xs) p k =
     (if startsWith (x # xs) p then int k else indexOf_from xs p (k + 1))"

definition indexOf :: "jsstring \<Rightarrow> jsstring \<Rightarrow> int" where
  "indexOf s p = indexOf_from s p 0"

text \<open>\<open>s.lastIndexOf(p)\<close>: the greatest position at which \<open>p\<close> occurs in \<open>s\<close>, or \<open>-1\<close>.\<close>

definition lastIndexOf :: "jsstring \<Rightarrow> jsstring \<Rightarrow> int" where
  "lastIndexOf s p =
     (case filter (\<lambda>k. startsWith (drop k s) p) (rev [0..<length s + 1]) of
        [] \<Rightarrow> - 1
      | k # _ \<Rightarrow> int k)"

definition str_includes :: "jsstring \<Rightarrow> jsstring \<Rightarrow> bool" where
  "str_includes s p = (indexOf s p \<noteq> - 1)"

text \<open>\<open>s.split(sep)\<close> for a separator of one code unit.\<close>

fun str_split :: "code_unit \<Rightarrow> jsstring \<Rightarrow> jsstring list" where
  "str_split sep [] = [[]]"
| "str_split sep (x # xs) =
     (if x = sep then [] # str_split sep xs
      else (case str_split sep xs of [] \<Rightarrow> [[x]] | y # ys \<Rightarrow> (x # y) # ys))"

section \<open>Regular expressions\<close>

text \<open>
  The regular expression literals of the source, as syntax trees. A character set is a
  literal code unit, \<open>.\<close>, \<open>\s\<close>, \<open>\w\<close>, \<open>[A-Za-z]\<close> or \<open>[^c]\<close>; the quantifiers
  \<open>*\<close> and \<open>+\<close> of the source are all on single character sets and greedy.
\<close>

datatype cset = CChar code_unit | CDot | CSpace | CWord | CAlpha | CNot code_unit

definition isAlpha :: "code_unit \<Rightarrow> bool" where
  "isAlpha c = ((cu CHR ''a'' \<le> c \<and> c \<le> cu CHR ''z'') \<or> (cu CHR ''A'' \<le> c \<and> c \<le> cu CHR ''Z''))"

definition isWordChar :: "code_unit \<Rightarrow> bool" where
  "isWordChar c = (isAlpha c \<or> (cu CHR ''0'' \<le> c \<and> c \<le> cu CHR ''9'') \<or> c = cu CHR ''_'')"

fun cmatch :: "cset \<Rightarrow> code_unit \<Rightarrow> bool" where
  "cmatch (CChar a) c = (c = a)"
| "cmatch CDot c = (\<not> isLineTerminator c)"
| "cmatch CSpace c = is_ws c"
| "cmatch CWord c = isWordChar c"
| "cmatch CAlpha c = isAlpha c"
| "cmatch (CNot a) c = (c \<noteq> a)"

datatype rx =
    RBol
  | REol
  | RLit jsstring
  | ROne cset
  | RStar cset
  | RPlus cset
  | RSeq rx rx
  | RAlt rx rx
  | ROpt rx
  | RGrp nat rx

text \<open>
  Matching is the backtracking search of ECMAScript, written as there with
  continuations: a matcher takes the state (the captures so far, the position, the rest
  of the input) and a continuation, and returns the captures of the first successful
  path or \<open>None\<close>. A capture that is \<open>None\<close> is JavaScript's \<open>undefined\<close>. An
  optional part \<open>(...)?\<close> is tried first and skipped on failure; an empty iteration of it
  is rejected. No pattern of the source repeats a group, so the groups inside an optional
  part are still undefined when it is tried.
\<close>

type_synonym captures = "nat \<Rightarrow> jsstring option"
type_synonym mstate = "captures \<times> nat \<times> jsstring"

fun match_one :: "cset \<Rightarrow> mstate \<Rightarrow> (mstate \<Rightarrow> captures option) \<Rightarrow> captures option" where
  "match_one cs (caps, pos, []) k = None"
| "match_one cs (caps, pos, x # xs) k = (if cmatch cs x then k (caps, pos + 1, xs) else None)"

fun match_rep :: "cset \<Rightarrow> mstate \<Rightarrow> (mstate \<Rightarrow> captures option) \<Rightarrow> captures option" where
  "match_rep cs (caps, pos, []) k = k (caps, pos, [])"
| "match_rep cs (caps, pos, x # xs) k =
     (if cmatch cs x
      then (case match_rep cs (caps, pos + 1, xs) k of
              Some r \<Rightarrow> Some r
            | None \<Rightarrow> k (caps, pos, x # xs))
      else k (caps, pos, x # xs))"

primrec matcher :: "rx \<Rightarrow> mstate \<Rightarrow> (mstate \<Rightarrow> captures option) \<Rightarrow> captures option" where
  "matcher RBol st k = (if fst (snd st) = 0 then k st else None)"
| "matcher REol st k = (if snd (snd st) = [] then k st else None)"
| "matcher (RLit l) st k =
     (if startsWith (snd (snd st)) l
      then k (fst st, fst (snd st) + length l, drop (length l) (snd (snd st)))
      else None)"
| "matcher (ROne cs) st k = match_one cs st k"
| "matcher (RStar cs) st k = match_rep cs st k"
| "matcher (RPlus cs) st k = match_one cs st (\<lambda>st'. match_rep cs st' k)"
| "matcher (RSeq a b) st k = matcher a st (\<lambda>st'. matcher b st' k)"
| "matcher (RAlt a b) st k =
     (case matcher a st k of Some r \<Rightarrow> Some r | None \<Rightarrow> matcher b st k)"
| "matcher (ROpt a) st k =
     (case matcher a st (\<lambda>st'. if fst (snd st') = fst (snd st) then None else k st') of
        Some r \<Rightarrow> Some r
      | None \<Rightarrow> k st)"
| "matcher (RGrp n a) st k =
     matcher a st
       (\<lambda>st'. k ((fst st')(n \<mapsto> take (fst (snd st') - fst (snd st)) (snd (snd st))),
                 fst (snd st'), snd (snd st')))"

text \<open>
  \<open>regexp_exec\<close> is \<open>RegExp.prototype.exec\<close> (and \<open>String.prototype.match\<close>) for a
  pattern without flags: the match is tried at each start position from the left.
\<close>

fun exec_from :: "rx \<Rightarrow> nat \<Rightarrow> jsstring \<Rightarrow> captures option" where
  "exec_from r pos [] = matcher r (Map.empty, pos, []) (\<lambda>st. Some (fst st))"
| "exec_from r pos (x # xs) =
     (case matcher r (Map.empty, pos, x # xs) (\<lambda>st. Some (fst st)) of
        Some c \<Rightarrow> Some c
      | None \<Rightarrow> exec_from r (pos + 1) xs)"

definition regexp_exec :: "rx \<Rightarrow> jsstring \<Rightarrow> captures option" where
  "regexp_exec r s = exec_from r 0 s"

definition regexp_test :: "rx \<Rightarrow> jsstring \<Rightarrow> bool" where
  "regexp_test r s = (regexp_exec r s \<noteq> None)"

definition rseq :: "rx list \<Rightarrow> rx" where
  "rseq rs = foldr RSeq rs (RLit [])"

text \<open>
  A pattern built at run time from the search term is compiled by the host's \<open>RegExp\<close>
  constructor, which either throws a \<open>SyntaxError\<close> or gives a pattern to test lines
  with. The constructor is a parameter of the functions that call it.
\<close>

datatype js_error = SyntaxError | TypeError

type_synonym regexp_ctor = "jsstring \<Rightarrow> js_error + (jsstring \<Rightarrow> bool)"

section \<open>Search types\<close>

datatype UsageCategory =
    IMPORT
  | EXPORT
  | FUNCTION_DEFINITION
  | FUNCTION_CALL
  | VARIABLE_DECLARATION
  | VARIABLE_USAGE
  | COMPONENT_USAGE
  | TYPE_DEFINITION
  | INTERFACE_DEFINITION
  | CLASS_DEFINITION
  | PROPERTY_ACCESS
  | COMMENT
  | STRING_LITERAL
  | OTHER

record MatchContext =
  functionName :: "jsstring option"
  className :: "jsstring option"
  isInComment_ctx :: bool
  isInString_ctx :: bool
  surroundingLines :: "jsstring list option"
  importedItems :: "jsstring option list option"
  functionArguments :: "jsstring list option"

section \<open>The text analyzer\<close>

subsection \<open>isInString\<close>

text \<open>
  The iteration of \<open>isInString\<close> over \<open>beforeText\<close>: the index \<open>i\<close> and the three counters
  \<open>(singleQuotes, doubleQuotes, backticks)\<close>.
\<close>

function isInString_loop :: "jsstring \<Rightarrow> nat \<Rightarrow> nat \<times> nat \<times> nat \<Rightarrow> nat \<times> nat \<times> nat" where
  "isInString_loop beforeText i (singleQuotes, doubleQuotes, backticks) =
     (if i < length beforeText then
        isInString_loop beforeText (i + 1)
          (if beforeText ! i = cu (CHR 0x27) \<and> (i = 0 \<or> beforeText ! (i - 1) \<noteq> cu (CHR 0x5C))
           then (singleQuotes + 1, doubleQuotes, backticks)
           else if beforeText ! i = cu (CHR 0x22) \<and> (i = 0 \<or> beforeText ! (i - 1) \<noteq> cu (CHR 0x5C))
           then (singleQuotes, doubleQuotes + 1, backticks)
           else if beforeText ! i = cu (CHR 0x60) \<and> (i = 0 \<or> beforeText ! (i - 1) \<noteq> cu (CHR 0x5C))
           then (singleQuotes, doubleQuotes, backticks + 1)
           else (singleQuotes, doubleQuotes, backticks))
      else (singleQuotes, doubleQuotes, backticks))"
  by pat_completeness auto
termination
  by (relation "measure (\<lambda>(beforeText, i, _). length beforeText - i)") auto

definition isInString :: "jsstring \<Rightarrow> int \<Rightarrow> bool" where
  "isInString lineText columnIndex =
     (let beforeText = substring lineText 0 columnIndex
      in case isInString_loop beforeText 0 (0, 0, 0) of
           (singleQuotes, doubleQuotes, backticks) \<Rightarrow>
             singleQuotes mod 2 = 1 \<or> doubleQuotes mod 2 = 1 \<or> backticks mod 2 = 1)"

subsection \<open>isInComment\<close>

definition isInComment :: "jsstring \<Rightarrow> int \<Rightarrow> bool" where
  "isInComment lineText columnIndex =
     (let singleLineComment = indexOf lineText (js ''//'')
      in if singleLineComment \<noteq> - 1 \<and> singleLineComment \<le> columnIndex then True
         else
           let beforeText = substring lineText 0 columnIndex;
               afterText = substring_from lineText columnIndex;
               multiLineStart = lastIndexOf beforeText (js ''/*'');
               multiLineEnd = indexOf afterText (js ''*/'')
           in if multiLineStart \<noteq> - 1 \<and> multiLineEnd \<noteq> - 1 then True
              else if startsWith (trim lineText) (js ''#'') then True
              else False)"

subsection \<open>The tests of the classification chain\<close>

definition isImportStatement :: "jsstring \<Rightarrow> jsstring \<Rightarrow> bool" where
  "isImportStatement line searchTerm =
     (let patterns =
        [rseq [RBol, RLit (js ''import''), RPlus CSpace, RStar CDot, RLit (js ''from''), RPlus CSpace],
         rseq [RBol, RLit (js ''import''), RPlus CSpace, RStar CDot, RLit (js ''=''), RPlus CSpace,
               RLit (js ''require'')],
         rseq [RBol, RLit (js ''const''), RPlus CSpace, RStar CDot, RLit (js ''=''), RPlus CSpace,
               RLit (js ''require'')],
         rseq [RBol, RLit (js ''from''), RPlus CSpace, RStar CDot, RLit (js ''import'')],
         rseq [RBol, RLit (js ''#include''), RPlus CSpace],
         rseq [RBol, RLit (js ''using''), RPlus CSpace]]
      in list_ex (\<lambda>pattern. regexp_test pattern line) patterns)"

definition isExportStatement :: "jsstring \<Rightarrow> jsstring \<Rightarrow> bool" where
  "isExportStatement line searchTerm =
     (let patterns =
        [rseq [RBol, RLit (js ''export''), RPlus CSpace,
               ROpt (RGrp 1 (rseq [RLit (js ''default''), RPlus CSpace]))],
         rseq [RBol, RLit (js ''export''), RStar CSpace, RLit (js ''{'')],
         rseq [RBol, RLit (js ''module.exports''), RStar CSpace, RLit (js ''='')]]
      in list_ex (\<lambda>pattern. regexp_test pattern line) patterns)"

definition isFunctionDefinition ::
    "jsstring \<Rightarrow> jsstring \<Rightarrow> jsstring \<Rightarrow> jsstring \<Rightarrow> jsstring \<Rightarrow> bool" where
  "isFunctionDefinition line searchTerm beforeMatch afterMatch languageId =
     (let jsPatterns =
        [rseq [RBol, RLit (js ''function''), RPlus CSpace],
         rseq [RBol, RLit (js ''const''), RPlus CSpace, RStar CDot, RLit (js ''=''), RStar CSpace,
               RLit (js ''(''), RStar CDot, RLit (js '')''), RStar CSpace, RLit (js ''=>'')],
         rseq [RBol, RLit (js ''const''), RPlus CSpace, RStar CDot, RLit (js ''=''), RStar CSpace,
               RLit (js ''function'')],
         rseq [RBol, RStar CDot, RLit (js '':''), RStar CSpace, RLit (js ''(''), RStar CDot,
               RLit (js '')''), RStar CSpace, RLit (js ''=>'')],
         rseq [RBol, RLit (js ''async''), RPlus CSpace, RLit (js ''function''), RPlus CSpace]];
          pyPatterns =
        [rseq [RBol, RLit (js ''def''), RPlus CSpace],
         rseq [RBol, RLit (js ''async''), RPlus CSpace, RLit (js ''def''), RPlus CSpace]];
          javaPatterns =
        [rseq [RBol, RStar CSpace,
               RGrp 1 (RAlt (RLit (js ''public'')) (RAlt (RLit (js ''private''))
                         (RAlt (RLit (js ''protected'')) (RLit (js ''static''))))),
               RStar CDot, RPlus CSpace, RPlus CWord, RStar CSpace, RLit (js ''('')]];
          patterns =
            (if languageId = js ''python'' then pyPatterns
             else if languageId = js ''java'' \<or> languageId = js ''csharp'' then javaPatterns
             else jsPatterns)
      in if startsWith afterMatch (js ''('') then True
         else list_ex (\<lambda>pattern. regexp_test pattern line) patterns)"

definition isVariableDeclaration ::
    "jsstring \<Rightarrow> jsstring \<Rightarrow> jsstring \<Rightarrow> jsstring \<Rightarrow> jsstring \<Rightarrow> bool" where
  "isVariableDeclaration line searchTerm beforeMatch afterMatch languageId =
     (let jsPatterns =
        [rseq [RBol, RGrp 1 (RAlt (RLit (js ''const'')) (RAlt (RLit (js ''let'')) (RLit (js ''var'')))),
               RPlus CSpace],
         rseq [RBol, RStar CDot, RLit (js '':''), RStar CSpace, ROne CAlpha]];
          pyPatterns =
        [rseq [RBol, RStar CSpace, RPlus CWord, RStar CSpace, RLit (js ''='')]];
          patterns = (if languageId = js ''python'' then pyPatterns else jsPatterns)
      in if startsWith afterMatch (js ''='') \<or> startsWith afterMatch (js '':'') then True
         else list_ex (\<lambda>pattern. regexp_test pattern line) patterns)"

definition isFunctionCall :: "jsstring \<Rightarrow> jsstring \<Rightarrow> jsstring \<Rightarrow> bool" where
  "isFunctionCall line searchTerm afterMatch = startsWith (trimLeft afterMatch) (js ''('')"

text \<open>
  The two tag patterns are built from the search term, unescaped, before either is
  tested: \<open><TERM[\s/>]\<close> and \<open></TERM>\<close>.
\<close>

definition isComponentUsage ::
    "regexp_ctor \<Rightarrow> jsstring \<Rightarrow> jsstring \<Rightarrow> jsstring \<Rightarrow> js_error + bool" where
  "isComponentUsage RegExp line searchTerm languageId =
     (if languageId \<noteq> js ''typescriptreact'' \<and> languageId \<noteq> js ''javascriptreact'' \<and>
         languageId \<noteq> js ''vue''
      then Inr False
      else
        case RegExp (js ''<'' @ searchTerm @ js ''['' @ [cu (CHR 0x5C)] @ js ''s/>]'') of
          Inl e \<Rightarrow> Inl e
        | Inr pattern1 \<Rightarrow>
            (case RegExp (js ''</'' @ searchTerm @ js ''>'') of
               Inl e \<Rightarrow> Inl e
             | Inr pattern2 \<Rightarrow> Inr (list_ex (\<lambda>pattern. pattern line) [pattern1, pattern2])))"

definition isTypeDefinition :: "jsstring \<Rightarrow> jsstring \<Rightarrow> jsstring \<Rightarrow> jsstring \<Rightarrow> bool" where
  "isTypeDefinition line searchTerm beforeMatch languageId =
     (if languageId \<noteq> js ''typescript'' \<and> languageId \<noteq> js ''typescriptreact'' then False
      else
        let patterns =
          [rseq [RBol, RLit (js ''type''), RPlus CSpace],
           rseq [RBol, RLit (js ''export''), RPlus CSpace, RLit (js ''type''), RPlus CSpace]]
        in list_ex (\<lambda>pattern. regexp_test pattern line) patterns)"

definition isInterfaceDefinition :: "jsstring \<Rightarrow> jsstring \<Rightarrow> jsstring \<Rightarrow> jsstring \<Rightarrow> bool" where
  "isInterfaceDefinition line searchTerm beforeMatch languageId =
     (if languageId \<noteq> js ''typescript'' \<and> languageId \<noteq> js ''typescriptreact'' then False
      else
        let patterns =
          [rseq [RBol, RLit (js ''interface''), RPlus CSpace],
           rseq [RBol, RLit (js ''export''), RPlus CSpace, RLit (js ''interface''), RPlus CSpace]]
        in list_ex (\<lambda>pattern. regexp_test pattern line) patterns)"

definition isClassDefinition :: "jsstring \<Rightarrow> jsstring \<Rightarrow> jsstring \<Rightarrow> jsstring \<Rightarrow> bool" where
  "isClassDefinition line searchTerm beforeMatch languageId =
     (let patterns =
        [rseq [RBol, RLit (js ''class''), RPlus CSpace],
         rseq [RBol, RLit (js ''export''), RPlus CSpace, RLit (js ''class''), RPlus CSpace],
         rseq [RBol, RLit (js ''abstract''), RPlus CSpace, RLit (js ''class''), RPlus CSpace],
         rseq [RBol, RLit (js ''public''), RPlus CSpace, RLit (js ''class''), RPlus CSpace],
         rseq [RBol, RLit (js ''private''), RPlus CSpace, RLit (js ''class''), RPlus CSpace]]
      in list_ex (\<lambda>pattern. regexp_test pattern line) patterns)"

definition isPropertyAccess :: "jsstring \<Rightarrow> jsstring \<Rightarrow> jsstring \<Rightarrow> jsstring \<Rightarrow> bool" where
  "isPropertyAccess line searchTerm beforeMatch afterMatch =
     (if endsWith beforeMatch (js ''.'') \<or> startsWith afterMatch (js ''.'') then True
      else if endsWith beforeMatch (js ''['') \<and> startsWith afterMatch (js '']'') then True
      else False)"

definition isVariableUsage :: "jsstring \<Rightarrow> jsstring \<Rightarrow> jsstring \<Rightarrow> jsstring \<Rightarrow> bool" where
  "isVariableUsage line searchTerm beforeMatch afterMatch =
     (let isNotDeclaration =
            (regexp_exec
               (rseq [RBol,
                      RGrp 1 (RAlt (RLit (js ''const'')) (RAlt (RLit (js ''let''))
                                (RAlt (RLit (js ''var'')) (RLit (js ''function''))))),
                      RStar CSpace, REol])
               beforeMatch = None);
          isNotFunctionCall = (\<not> startsWith (trimLeft afterMatch) (js ''(''));
          isNotPropertyAccess = (\<not> endsWith beforeMatch (js ''.'') \<and> \<not> endsWith beforeMatch (js ''[''))
      in isNotDeclaration \<and> isNotFunctionCall \<and> isNotPropertyAccess)"

subsection \<open>categorizeMatch\<close>

definition categorizeMatch ::
    "regexp_ctor \<Rightarrow> jsstring \<Rightarrow> int \<Rightarrow> jsstring \<Rightarrow> MatchContext \<Rightarrow> jsstring list \<Rightarrow> int \<Rightarrow> jsstring
       \<Rightarrow> js_error + UsageCategory" where
  "categorizeMatch RegExp lineText columnIndex searchTerm context allLines lineNumber languageId =
     (let trimmedLine = trim lineText;
          beforeMatch = trim (substring lineText 0 columnIndex);
          afterMatch = trim (substring_from lineText (columnIndex + int (length searchTerm)))
      in if isInComment_ctx context then Inr COMMENT
         else if isInString_ctx context then Inr STRING_LITERAL
         else if isImportStatement trimmedLine searchTerm then Inr IMPORT
         else if isExportStatement trimmedLine searchTerm then Inr EXPORT
         else if isFunctionDefinition trimmedLine searchTerm beforeMatch afterMatch languageId
           then Inr FUNCTION_DEFINITION
         else if isVariableDeclaration trimmedLine searchTerm beforeMatch afterMatch languageId
           then Inr VARIABLE_DECLARATION
         else if isFunctionCall trimmedLine searchTerm afterMatch then Inr FUNCTION_CALL
         else
           case isComponentUsage RegExp trimmedLine searchTerm languageId of
             Inl e \<Rightarrow> Inl e
           | Inr True \<Rightarrow> Inr COMPONENT_USAGE
           | Inr False \<Rightarrow>
               if isTypeDefinition trimmedLine searchTerm beforeMatch languageId
                 then Inr TYPE_DEFINITION
               else if isInterfaceDefinition trimmedLine searchTerm beforeMatch languageId
                 then Inr INTERFACE_DEFINITION
               else if isClassDefinition trimmedLine searchTerm beforeMatch languageId
                 then Inr CLASS_DEFINITION
               else if isPropertyAccess trimmedLine searchTerm beforeMatch afterMatch
                 then Inr PROPERTY_ACCESS
               else if isVariableUsage trimmedLine searchTerm beforeMatch afterMatch
                 then Inr VARIABLE_USAGE
               else Inr OTHER)"

subsection \<open>The backward scans\<close>

definition re_functionMatch :: rx where
  "re_functionMatch =
     rseq [RBol, ROpt (RGrp 1 (rseq [RLit (js ''async''), RPlus CSpace])), RLit (js ''function''),
           RPlus CSpace, RGrp 2 (RPlus CWord), RStar CSpace, RLit (js ''('')]"

definition re_arrowMatch :: rx where
  "re_arrowMatch =
     rseq [RBol, RGrp 1 (RAlt (RLit (js ''const'')) (RAlt (RLit (js ''let'')) (RLit (js ''var'')))),
           RPlus CSpace, RGrp 2 (RPlus CWord), RStar CSpace, RLit (js ''=''), RStar CSpace,
           RStar CDot, RLit (js ''=>'')]"

definition re_methodMatch :: rx where
  "re_methodMatch = rseq [RBol, RGrp 1 (RPlus CWord), RStar CSpace, RLit (js ''('')]"

text \<open>
  The loop \<open>for (let i = lineNumber; i >= 0; i--)\<close>. Reading \<open>allLines[i]\<close> past the end
  of the array gives \<open>undefined\<close>, and \<open>undefined.trim()\<close> throws a \<open>TypeError\<close>.
\<close>

function getFunctionContext_loop :: "jsstring list \<Rightarrow> int \<Rightarrow> js_error + jsstring option" where
  "getFunctionContext_loop allLines i =
     (if i \<ge> 0 then
        if nat i < length allLines then
          let line = trim (allLines ! nat i) in
          case regexp_exec re_functionMatch line of
            Some functionMatch \<Rightarrow> Inr (functionMatch 2)
          | None \<Rightarrow>
             (case regexp_exec re_arrowMatch line of
                Some arrowMatch \<Rightarrow> Inr (arrowMatch 2)
              | None \<Rightarrow>
                 (case regexp_exec re_methodMatch line of
                    Some methodMatch \<Rightarrow>
                      if \<not> str_includes line (js ''if'') \<and> \<not> str_includes line (js ''for'') \<and>
                         \<not> str_includes line (js ''while'')
                      then Inr (methodMatch 1)
                      else getFunctionContext_loop allLines (i - 1)
                  | None \<Rightarrow> getFunctionContext_loop allLines (i - 1)))
        else Inl TypeError
      else Inr None)"
  by pat_completeness auto
termination
  by (relation "measure (\<lambda>(allLines, i). nat (i + 1))") auto

definition getFunctionContext :: "jsstring list \<Rightarrow> int \<Rightarrow> js_error + jsstring option" where
  "getFunctionContext allLines lineNumber = getFunctionContext_loop allLines lineNumber"

definition re_classMatch :: rx where
  "re_classMatch =
     rseq [RBol, ROpt (RGrp 1 (rseq [RLit (js ''export''), RPlus CSpace])),
           ROpt (RGrp 2 (rseq [RLit (js ''abstract''), RPlus CSpace])),
           RLit (js ''class''), RPlus CSpace, RGrp 3 (RPlus CWord)]"

function getClassContext_loop :: "jsstring list \<Rightarrow> int \<Rightarrow> js_error + jsstring option" where
  "getClassContext_loop allLines i =
     (if i \<ge> 0 then
        if nat i < length allLines then
          let line = trim (allLines ! nat i) in
          case regexp_exec re_classMatch line of
            Some classMatch \<Rightarrow> Inr (classMatch 3)
          | None \<Rightarrow> getClassContext_loop allLines (i - 1)
        else Inl TypeError
      else Inr None)"
  by pat_completeness auto
termination
  by (relation "measure (\<lambda>(allLines, i). nat (i + 1))") auto

definition getClassContext :: "jsstring list \<Rightarrow> int \<Rightarrow> js_error + jsstring option" where
  "getClassContext allLines lineNumber = getClassContext_loop allLines lineNumber"

subsection \<open>extractImportedItems\<close>

definition re_namedMatch :: rx where
  "re_namedMatch =
     rseq [RLit (js ''import''), RStar CSpace, RLit (js ''{''), RStar CSpace,
           RGrp 1 (RPlus (CNot (cu CHR ''}''))), RStar CSpace, RLit (js ''}'')]"

definition re_defaultMatch :: rx where
  "re_defaultMatch =
     rseq [RLit (js ''import''), RPlus CSpace, RGrp 1 (RPlus CWord), RPlus CSpace, RLit (js ''from'')]"

definition re_namespaceMatch :: rx where
  "re_namespaceMatch =
     rseq [RLit (js ''import''), RPlus CSpace, RLit (js ''*''), RPlus CSpace, RLit (js ''as''),
           RPlus CSpace, RGrp 1 (RPlus CWord), RPlus CSpace, RLit (js ''from'')]"

text \<open>
  The array \<open>items\<close> holds what \<open>push\<close> is given: a captured string, or \<open>undefined\<close>
  (\<open>None\<close>) for a group that took no part in the match. Calling \<open>split\<close> on
  \<open>undefined\<close> throws a \<open>TypeError\<close>.
\<close>

definition extractImportedItems :: "jsstring \<Rightarrow> js_error + jsstring option list" where
  "extractImportedItems line =
     (case regexp_exec re_namedMatch line of
        Some namedMatch \<Rightarrow>
          (case namedMatch 1 of
             None \<Rightarrow> Inl TypeError
           | Some group1 \<Rightarrow> Inr (map (\<lambda>item. Some (trim item)) (str_split (cu CHR '','') group1)))
      | None \<Rightarrow>
          let items = [];
              items = (case regexp_exec re_defaultMatch line of
                         Some defaultMatch \<Rightarrow> items @ [defaultMatch 1]
                       | None \<Rightarrow> items);
              items = (case regexp_exec re_namespaceMatch line of
                         Some namespaceMatch \<Rightarrow> items @ [namespaceMatch 1]
                       | None \<Rightarrow> items)
          in Inr items)"

section \<open>The counters of the specification\<close>

text \<open>
  The counter of the specification: the occurrences of the quote \<open>q\<close> at indices
  strictly less than \<open>column\<close> that are not immediately preceded by a backslash.
\<close>

definition unescaped_count :: "code_unit \<Rightarrow> jsstring \<Rightarrow> int \<Rightarrow> nat" where
  "unescaped_count q line column =
     length (filter (\<lambda>i. line ! i = q \<and> (i = 0 \<or> line ! (i - 1) \<noteq> cu (CHR 0x5C)))
               [0..<min (nat column) (length line)])"

section \<open>Notions of the specification for the comment test and the scans\<close>

text \<open>\<open>occurs_at p s k\<close>: the string \<open>p\<close> occurs in \<open>s\<close>, starting at position \<open>k\<close>.\<close>

definition occurs_at :: "jsstring \<Rightarrow> jsstring \<Rightarrow> nat \<Rightarrow> bool" where
  "occurs_at p s k = (k + length p \<le> length s \<and> take (length p) (drop k s) = p)"

text \<open>
  \<open>sets_group r n\<close>: by its shape, every successful match of \<open>r\<close> goes through
  the capture group \<open>n\<close>.
\<close>

fun sets_group :: "rx \<Rightarrow> nat \<Rightarrow> bool" where
  "sets_group (RGrp m a) n = (m = n \<or> sets_group a n)"
| "sets_group (RSeq a b) n = (sets_group a n \<or> sets_group b n)"
| "sets_group (RAlt a b) n = (sets_group a n \<and> sets_group b n)"
| "sets_group r n = False"

text \<open>The text of group \<open>n\<close> in the match of \<open>r\<close> on \<open>s\<close>, if there is a match.\<close>

definition captured :: "rx \<Rightarrow> nat \<Rightarrow> jsstring \<Rightarrow> jsstring option" where
  "captured r n s = (case regexp_exec r s of None \<Rightarrow> None | Some c \<Rightarrow> c n)"

text \<open>
  The name that one trimmed line gives to the scan of \<open>getFunctionContext\<close>: the three
  patterns of the specification, in their order of priority.
\<close>

definition functionNameOnLine :: "jsstring \<Rightarrow> jsstring option" where
  "functionNameOnLine t =
     (if regexp_test re_functionMatch t then captured re_functionMatch 2 t
      else if regexp_test re_arrowMatch t then captured re_arrowMatch 2 t
      else if regexp_test re_methodMatch t \<and> \<not> str_includes t (js ''if'') \<and>
              \<not> str_includes t (js ''for'') \<and> \<not> str_includes t (js ''while'')
        then captured re_methodMatch 1 t
      else None)"

text \<open>A trimmed line matches one of the three patterns of the function scan.\<close>

definition functionPatternMatches :: "jsstring \<Rightarrow> bool" where
  "functionPatternMatches t =
     (regexp_test re_functionMatch t \<or> regexp_test re_arrowMatch t \<or>
      (regexp_test re_methodMatch t \<and> \<not> str_includes t (js ''if'') \<and>
       \<not> str_includes t (js ''for'') \<and> \<not> str_includes t (js ''while'')))"

section \<open>Properties\<close>

lemma substring_0: "substring s 0 c = take (nat c) s"
  by (auto simp: substring_def Let_def min_def max_def)

lemma isInString_loop_count:
  "isInString_loop b i (s, d, t) =
     (s + length (filter (\<lambda>j. b ! j = cu (CHR 0x27) \<and> (j = 0 \<or> b ! (j - 1) \<noteq> cu (CHR 0x5C))) [i..<length b]),
      d + length (filter (\<lambda>j. b ! j = cu (CHR 0x22) \<and> (j = 0 \<or> b ! (j - 1) \<noteq> cu (CHR 0x5C))) [i..<length b]),
      t + length (filter (\<lambda>j. b ! j = cu (CHR 0x60) \<and> (j = 0 \<or> b ! (j - 1) \<noteq> cu (CHR 0x5C))) [i..<length b]))"
proof (induction "length b - i" arbitrary: i s d t)
  case 0
  then show ?case by simp
next
  case (Suc n)
  then have lt: "i < length b" and n: "n = length b - Suc i"
    by simp_all
  have quotes: "cu (CHR 0x27) \<noteq> cu (CHR 0x22)" "cu (CHR 0x27) \<noteq> cu (CHR 0x60)"
    "cu (CHR 0x22) \<noteq> cu (CHR 0x60)"
    by (simp_all add: cu_def)
  have upt: "[i..<length b] = i # [Suc i..<length b]"
    using lt by (simp add: upt_conv_Cons)
  have IH: "\<And>s d t. isInString_loop b (Suc i) (s, d, t) =
     (s + length (filter (\<lambda>j. b ! j = cu (CHR 0x27) \<and> (j = 0 \<or> b ! (j - 1) \<noteq> cu (CHR 0x5C))) [Suc i..<length b]),
      d + length (filter (\<lambda>j. b ! j = cu (CHR 0x22) \<and> (j = 0 \<or> b ! (j - 1) \<noteq> cu (CHR 0x5C))) [Suc i..<length b]),
      t + length (filter (\<lambda>j. b ! j = cu (CHR 0x60) \<and> (j = 0 \<or> b ! (j - 1) \<noteq> cu (CHR 0x5C))) [Suc i..<length b]))"
    by (rule Suc.hyps(1)[OF n])
  have step: "isInString_loop b i (s, d, t) = isInString_loop b (Suc i)
          (if b ! i = cu (CHR 0x27) \<and> (i = 0 \<or> b ! (i - 1) \<noteq> cu (CHR 0x5C))
           then (s + 1, d, t)
           else if b ! i = cu (CHR 0x22) \<and> (i = 0 \<or> b ! (i - 1) \<noteq> cu (CHR 0x5C))
           then (s, d + 1, t)
           else if b ! i = cu (CHR 0x60) \<and> (i = 0 \<or> b ! (i - 1) \<noteq> cu (CHR 0x5C))
           then (s, d, t + 1)
           else (s, d, t))"
    using lt by (subst isInString_loop.simps) simp
  show ?case
    unfolding step upt
    using quotes by (simp add: IH del: isInString_loop.simps)
qed

lemma unescaped_count_take:
  "unescaped_count q line column =
     length (filter (\<lambda>j. take (nat column) line ! j = q \<and>
                          (j = 0 \<or> take (nat column) line ! (j - 1) \<noteq> cu (CHR 0x5C)))
               [0..<length (take (nat column) line)])"
proof -
  have "filter (\<lambda>i. line ! i = q \<and> (i = 0 \<or> line ! (i - 1) \<noteq> cu (CHR 0x5C)))
          [0..<min (nat column) (length line)] =
        filter (\<lambda>j. take (nat column) line ! j = q \<and>
                          (j = 0 \<or> take (nat column) line ! (j - 1) \<noteq> cu (CHR 0x5C)))
          [0..<length (take (nat column) line)]"
  proof (rule filter_cong)
    show "[0..<min (nat column) (length line)] = [0..<length (take (nat column) line)]"
      by (simp add: min.commute)
  next
    fix j assume "j \<in> set [0..<length (take (nat column) line)]"
    then have "j < nat column" "j - 1 < nat column"
      by auto
    then show "(line ! j = q \<and> (j = 0 \<or> line ! (j - 1) \<noteq> cu (CHR 0x5C))) =
               (take (nat column) line ! j = q \<and>
                 (j = 0 \<or> take (nat column) line ! (j - 1) \<noteq> cu (CHR 0x5C)))"
      by simp
  qed
  then show ?thesis
    by (simp add: unescaped_count_def)
qed

text \<open>
  C4. \<open>isInString(line, column)\<close> is true exactly when the number of unescaped single
  quotes, of unescaped double quotes or of unescaped backticks among the characters at
  indices strictly less than \<open>column\<close> is odd; a quote is unescaped when it is at index 0
  or the character before it is not a backslash. Which quote is open is not tracked.
\<close>

theorem isInString_parity:
  "isInString line column \<longleftrightarrow>
     odd (unescaped_count (cu (CHR 0x27)) line column) \<or>
     odd (unescaped_count (cu (CHR 0x22)) line column) \<or>
     odd (unescaped_count (cu (CHR 0x60)) line column)"
  unfolding isInString_def Let_def substring_0 isInString_loop_count unescaped_count_take
  by (simp add: odd_iff_mod_2_eq_one)

theorem isInString_parity_witness:
  "isInString (js ''a \"b' c'') 3 \<and>
   odd (unescaped_count (cu (CHR 0x22)) (js ''a \"b' c'') 3) \<and>
   \<not> odd (unescaped_count (cu (CHR 0x27)) (js ''a \"b' c'') 3)"
  using isInString_parity [of "js ''a \"b' c''" 3]
  by (simp add: unescaped_count_def js_def cu_def)

text \<open>
  C6. The specification's example: \<open>isInString("const x = 'a,b';", 15)\<close> is true and
  \<open>isInString("const x = 'a,b';", 5)\<close> is false. The first half fails: the fifteen
  characters before column 15 hold both quotes of the literal.
\<close>

theorem isInString_example_counterexample:
  "\<not> (isInString (js ''const x = 'a,b';'') 15 = True \<and>
      isInString (js ''const x = 'a,b';'') 5 = False)"
  by code_simp

text \<open>
  C6, amended. \<open>isInString("const x = 'a,b';", 15)\<close> is false, as column 15 is past the
  closing quote; \<open>isInString("const x = 'a,b';", 14)\<close> is true (inside the literal, on its
  closing quote); \<open>isInString("const x = 'a,b';", 5)\<close> is false.
\<close>

theorem isInString_example:
  "isInString (js ''const x = 'a,b';'') 15 = False \<and>
   isInString (js ''const x = 'a,b';'') 14 = True \<and>
   isInString (js ''const x = 'a,b';'') 5 = False"
  by code_simp


subsection \<open>The classification chain\<close>

lemma dropWhile_snoc: "\<not> P x \<Longrightarrow> dropWhile P (ys @ [x]) = dropWhile P ys @ [x]"
  by (induction ys) simp_all

lemma trimLeft_trim: "trimLeft (trim s) = trim s"
proof (cases "dropWhile is_ws s")
  case Nil
  show ?thesis
    unfolding trim_def trimLeft_def trimEnd_def Nil by simp
next
  case (Cons x t)
  have nx: "\<not> is_ws x"
    using Cons dropWhile_eq_Cons_conv[of is_ws s x t] by blast
  have "trim s = rev (dropWhile is_ws (rev (x # t)))"
    unfolding trim_def trimLeft_def trimEnd_def Cons ..
  also have "\<dots> = x # rev (dropWhile is_ws (rev t))"
    by (simp add: dropWhile_snoc[of is_ws x, OF nx])
  finally have t: "trim s = x # rev (dropWhile is_ws (rev t))" .
  show ?thesis
    unfolding t trimLeft_def using nx by simp
qed

lemma isFunctionCall_trim:
  "isFunctionCall l t (trim a) \<Longrightarrow> isFunctionDefinition l t b (trim a) lang"
  by (simp add: isFunctionCall_def isFunctionDefinition_def trimLeft_trim Let_def)

text \<open>
  C9. \<open>categorizeMatch\<close> never returns FUNCTION_CALL: the text after the match is trimmed
  at entry, so the function-call test (the text, left-trimmed, starts with an opening
  parenthesis) can only hold when the leading-parenthesis check of the function-definition
  test, evaluated earlier, already held.
\<close>

theorem categorizeMatch_never_FUNCTION_CALL:
  "categorizeMatch RegExp lineText columnIndex searchTerm context allLines lineNumber languageId
     \<noteq> Inr FUNCTION_CALL"
proof -
  define afterMatch where
    "afterMatch = trim (substring_from lineText (columnIndex + int (length searchTerm)))"
  have "\<not> (\<not> isFunctionDefinition (trim lineText) searchTerm
                (trim (substring lineText 0 columnIndex)) afterMatch languageId \<and>
            isFunctionCall (trim lineText) searchTerm afterMatch)"
    unfolding afterMatch_def using isFunctionCall_trim by blast
  then show ?thesis
    unfolding categorizeMatch_def Let_def afterMatch_def[symmetric]
    by (auto split: sum.split bool.split)
qed

text \<open>
  C2. When \<open>context.isInComment\<close> is true the result is COMMENT, whatever the other
  arguments and fields; when it is false and \<open>context.isInString\<close> is true the result is
  STRING_LITERAL.
\<close>

theorem categorizeMatch_comment_string_priority:
  "(isInComment_ctx ctx \<longrightarrow>
      categorizeMatch RegExp lineText columnIndex searchTerm ctx allLines lineNumber languageId
        = Inr COMMENT) \<and>
   (\<not> isInComment_ctx ctx \<and> isInString_ctx ctx \<longrightarrow>
      categorizeMatch RegExp lineText columnIndex searchTerm ctx allLines lineNumber languageId
        = Inr STRING_LITERAL)"
  by (simp add: categorizeMatch_def Let_def)

theorem categorizeMatch_comment_string_priority_witness:
  "isInComment_ctx \<lparr>functionName = None, className = None, isInComment_ctx = True,
       isInString_ctx = True, surroundingLines = None, importedItems = None,
        functionArguments = None\<rparr> \<and>
   categorizeMatch (\<lambda>p. Inl SyntaxError) (js ''x = 1 // 'foo(' '') 10 (js ''foo('')
       \<lparr>functionName = None, className = None, isInComment_ctx = True,
        isInString_ctx = True, surroundingLines = None, importedItems = None,
        functionArguments = None\<rparr>
       [js ''x = 1 // 'foo(' ''] 0 (js ''typescriptreact'') = Inr COMMENT \<and>
   \<not> isInComment_ctx \<lparr>functionName = None, className = None, isInComment_ctx = False,
       isInString_ctx = True, surroundingLines = None, importedItems = None,
        functionArguments = None\<rparr> \<and>
   isInString_ctx \<lparr>functionName = None, className = None, isInComment_ctx = False,
       isInString_ctx = True, surroundingLines = None, importedItems = None,
        functionArguments = None\<rparr> \<and>
   categorizeMatch (\<lambda>p. Inl SyntaxError) (js ''x = 'foo(' '') 5 (js ''foo('')
       \<lparr>functionName = None, className = None, isInComment_ctx = False,
        isInString_ctx = True, surroundingLines = None, importedItems = None,
        functionArguments = None\<rparr>
       [js ''x = 'foo(' ''] 0 (js ''typescriptreact'') = Inr STRING_LITERAL"
  using categorizeMatch_comment_string_priority
      [where ctx = "\<lparr>functionName = None, className = None, isInComment_ctx = True,
        isInString_ctx = True, surroundingLines = None, importedItems = None,
        functionArguments = None\<rparr>"
       and RegExp = "\<lambda>p. Inl SyntaxError" and lineText = "js ''x = 1 // 'foo(' ''"
       and columnIndex = 10 and searchTerm = "js ''foo(''"
       and allLines = "[js ''x = 1 // 'foo(' '']" and lineNumber = 0
       and languageId = "js ''typescriptreact''"]
    categorizeMatch_comment_string_priority
      [where ctx = "\<lparr>functionName = None, className = None, isInComment_ctx = False,
        isInString_ctx = True, surroundingLines = None, importedItems = None,
        functionArguments = None\<rparr>"
       and RegExp = "\<lambda>p. Inl SyntaxError" and lineText = "js ''x = 'foo(' ''"
       and columnIndex = 5 and searchTerm = "js ''foo(''"
       and allLines = "[js ''x = 'foo(' '']" and lineNumber = 0
       and languageId = "js ''typescriptreact''"]
  by simp

subsection \<open>The backward scans\<close>

lemma getFunctionContext_loop_total:
  "i < int (length allLines) \<Longrightarrow> \<exists>r. getFunctionContext_loop allLines i = Inr r"
proof (induction "nat (i + 1)" arbitrary: i)
  case 0
  then have "\<not> i \<ge> 0" by simp
  then show ?case
    by (subst getFunctionContext_loop.simps) simp
next
  case (Suc n)
  then have i: "i \<ge> 0" "nat i < length allLines" and n: "n = nat (i - 1 + 1)"
    by simp_all
  from Suc.hyps(1)[OF n] Suc.prems obtain r where r: "getFunctionContext_loop allLines (i - 1) = Inr r"
    by auto
  show ?case
    apply (subst getFunctionContext_loop.simps)
    apply (simp only: i if_True r Let_def)
    apply (simp split: option.split)
    done
qed

lemma getClassContext_loop_total:
  "i < int (length allLines) \<Longrightarrow> \<exists>r. getClassContext_loop allLines i = Inr r"
proof (induction "nat (i + 1)" arbitrary: i)
  case 0
  then have "\<not> i \<ge> 0" by simp
  then show ?case
    by (subst getClassContext_loop.simps) simp
next
  case (Suc n)
  then have i: "i \<ge> 0" "nat i < length allLines" and n: "n = nat (i - 1 + 1)"
    by simp_all
  from Suc.hyps(1)[OF n] Suc.prems obtain r where r: "getClassContext_loop allLines (i - 1) = Inr r"
    by auto
  show ?case
    apply (subst getClassContext_loop.simps)
    apply (simp only: i if_True r Let_def)
    apply (simp split: option.split)
    done
qed

text \<open>
  C10. For \<open>0 \<le> lineNumber < length(allLines)\<close> the backward scans \<open>getFunctionContext\<close>
  and \<open>getClassContext\<close> return a definite optional value, a name or none, and signal no
  failure. (Both scans are total functions: the index decreases until it is below 0.)
\<close>

theorem backward_scans_total:
  "0 \<le> lineNumber \<Longrightarrow> lineNumber < int (length allLines) \<Longrightarrow>
     (\<exists>r. getFunctionContext allLines lineNumber = Inr r) \<and>
     (\<exists>r. getClassContext allLines lineNumber = Inr r)"
  unfolding getFunctionContext_def getClassContext_def
  using getFunctionContext_loop_total getClassContext_loop_total by blast

theorem backward_scans_total_witness:
  "(0::int) \<le> 1 \<and> 1 < int (length [js ''class Bar {'', js ''  method() {}'', js ''}'']) \<and>
   (\<exists>r. getFunctionContext [js ''class Bar {'', js ''  method() {}'', js ''}''] 1 = Inr r) \<and>
   (\<exists>r. getClassContext [js ''class Bar {'', js ''  method() {}'', js ''}''] 1 = Inr r)"
  using backward_scans_total [of 1 "[js ''class Bar {'', js ''  method() {}'', js ''}'']"]
  by simp

lemma match_one_cont:
  "match_one cs st k = Some c \<Longrightarrow> \<exists>st'. k st' = Some c \<and> fst st' = fst st"
  by (cases "(cs, st, k)" rule: match_one.cases) (auto split: if_splits)

lemma match_rep_cont:
  "match_rep cs st k = Some c \<Longrightarrow> \<exists>st'. k st' = Some c \<and> fst st' = fst st"
  by (induction cs st k rule: match_rep.induct) (auto split: if_splits option.splits)

lemma matcher_cont:
  "matcher r st k = Some c \<Longrightarrow>
     \<exists>st'. k st' = Some c \<and> dom (fst st) \<subseteq> dom (fst st') \<and> {n. sets_group r n} \<subseteq> dom (fst st')"
proof (induction r arbitrary: st k)
  case RBol
  then have "k st = Some c" by (simp split: if_splits)
  then show ?case by (intro exI[of _ st]) simp
next
  case REol
  then have "k st = Some c" by (simp split: if_splits)
  then show ?case by (intro exI[of _ st]) simp
next
  case (RLit l)
  then have "k (fst st, fst (snd st) + length l, drop (length l) (snd (snd st))) = Some c"
    by (simp split: if_splits)
  then show ?case
    by (intro exI[of _ "(fst st, fst (snd st) + length l, drop (length l) (snd (snd st)))"]) simp
next
  case (ROne cs)
  then obtain st1 where "k st1 = Some c" "fst st1 = fst st"
    using match_one_cont[of cs st k c] by auto
  then show ?case by (intro exI[of _ st1]) simp
next
  case (RStar cs)
  then obtain st1 where "k st1 = Some c" "fst st1 = fst st"
    using match_rep_cont[of cs st k c] by auto
  then show ?case by (intro exI[of _ st1]) simp
next
  case (RPlus cs)
  then obtain st1 where "match_rep cs st1 k = Some c" "fst st1 = fst st"
    using match_one_cont[of cs st "\<lambda>st'. match_rep cs st' k" c] by auto
  then obtain st2 where "k st2 = Some c" "fst st2 = fst st"
    using match_rep_cont[of cs st1 k c] by auto
  then show ?case by (intro exI[of _ st2]) simp
next
  case (RSeq a b)
  from RSeq.prems have "matcher a st (\<lambda>st'. matcher b st' k) = Some c" by simp
  from RSeq.IH(1)[OF this] obtain st1 where
    st1: "matcher b st1 k = Some c" "dom (fst st) \<subseteq> dom (fst st1)"
      "{n. sets_group a n} \<subseteq> dom (fst st1)"
    by blast
  from RSeq.IH(2)[OF st1(1)] obtain st2 where
    st2: "k st2 = Some c" "dom (fst st1) \<subseteq> dom (fst st2)"
      "{n. sets_group b n} \<subseteq> dom (fst st2)"
    by blast
  have "{n. sets_group (RSeq a b) n} = {n. sets_group a n} \<union> {n. sets_group b n}"
    by auto
  then show ?case
    using st1(2,3) st2 by (intro exI[of _ st2]) blast
next
  case (RAlt a b)
  have sub: "{n. sets_group (RAlt a b) n} = {n. sets_group a n} \<inter> {n. sets_group b n}"
    by auto
  from RAlt.prems have "matcher a st k = Some c \<or> matcher b st k = Some c"
    by (simp split: option.splits)
  then show ?case
  proof
    assume "matcher a st k = Some c"
    from RAlt.IH(1)[OF this] obtain st1 where "k st1 = Some c" "dom (fst st) \<subseteq> dom (fst st1)"
      "{n. sets_group a n} \<subseteq> dom (fst st1)" by blast
    then show ?thesis unfolding sub by (intro exI[of _ st1]) blast
  next
    assume "matcher b st k = Some c"
    from RAlt.IH(2)[OF this] obtain st1 where "k st1 = Some c" "dom (fst st) \<subseteq> dom (fst st1)"
      "{n. sets_group b n} \<subseteq> dom (fst st1)" by blast
    then show ?thesis unfolding sub by (intro exI[of _ st1]) blast
  qed
next
  case (ROpt a)
  let ?k = "\<lambda>st'. if fst (snd st') = fst (snd st) then None else k st'"
  from ROpt.prems have "matcher a st ?k = Some c \<or> k st = Some c"
    by (simp split: option.splits)
  then show ?case
  proof
    assume "matcher a st ?k = Some c"
    from ROpt.IH[OF this] obtain st1 where st1: "?k st1 = Some c"
      "dom (fst st) \<subseteq> dom (fst st1)" by blast
    from st1(1) have "k st1 = Some c" by (simp split: if_splits)
    with st1(2) show ?thesis by (intro exI[of _ st1]) simp
  next
    assume "k st = Some c"
    then show ?thesis by (intro exI[of _ st]) simp
  qed
next
  case (RGrp m a)
  let ?upd = "\<lambda>st'. ((fst st')(m \<mapsto> take (fst (snd st') - fst (snd st)) (snd (snd st))),
                 fst (snd st'), snd (snd st'))"
  from RGrp.prems have "matcher a st (\<lambda>st'. k (?upd st')) = Some c" by simp
  from RGrp.IH[OF this] obtain st1 where st1: "k (?upd st1) = Some c"
      "dom (fst st) \<subseteq> dom (fst st1)"
      "{n. sets_group a n} \<subseteq> dom (fst st1)" by blast
  have sub: "{n. sets_group (RGrp m a) n} = insert m {n. sets_group a n}"
    by auto
  have d: "dom (fst (?upd st1)) = insert m (dom (fst st1))"
    by simp
  show ?case
    using st1 unfolding sub by (intro exI[of _ "?upd st1"]) (simp only: d, blast)
qed

lemma exec_from_sets_group:
  "exec_from r pos s = Some c \<Longrightarrow> sets_group r n \<Longrightarrow> c n \<noteq> None"
proof (induction r pos s rule: exec_from.induct)
  case (1 r pos)
  then have "matcher r (Map.empty, pos, []) (\<lambda>st. Some (fst st)) = Some c" by simp
  from matcher_cont[OF this] 1(2) show ?case by auto
next
  case (2 r pos x xs)
  show ?case
  proof (cases "matcher r (Map.empty, pos, x # xs) (\<lambda>st. Some (fst st))")
    case None
    with 2 show ?thesis by simp
  next
    case (Some c')
    with 2(2) have "c' = c" by simp
    with Some have "matcher r (Map.empty, pos, x # xs) (\<lambda>st. Some (fst st)) = Some c" by simp
    from matcher_cont[OF this] 2(3) show ?thesis by auto
  qed
qed

lemma regexp_exec_sets_group:
  "regexp_exec r s = Some c \<Longrightarrow> sets_group r n \<Longrightarrow> \<exists>g. c n = Some g"
  using exec_from_sets_group[of r 0 s c n] by (auto simp: regexp_exec_def)

lemma sets_group_res:
  "sets_group re_functionMatch 2" "sets_group re_arrowMatch 2" "sets_group re_methodMatch 1"
  "sets_group re_classMatch 3" "sets_group re_namedMatch 1" "sets_group re_defaultMatch 1"
  "sets_group re_namespaceMatch 1"
  by (simp_all add: re_functionMatch_def re_arrowMatch_def re_methodMatch_def re_classMatch_def
      re_namedMatch_def re_defaultMatch_def re_namespaceMatch_def rseq_def)

lemma captured_None_iff:
  "sets_group r n \<Longrightarrow> captured r n s = None \<longleftrightarrow> regexp_exec r s = None"
  using regexp_exec_sets_group[of r s _ n]
  by (auto simp: captured_def split: option.splits)

lemma functionNameOnLine_None_iff:
  "functionNameOnLine t = None \<longleftrightarrow> \<not> functionPatternMatches t"
  unfolding functionNameOnLine_def functionPatternMatches_def
  using captured_None_iff[OF sets_group_res(1), of t] captured_None_iff[OF sets_group_res(2), of t]
    captured_None_iff[OF sets_group_res(3), of t]
  by (auto simp: regexp_test_def)

lemma getFunctionContext_loop_step:
  assumes "0 \<le> i" "nat i < length allLines"
  shows "getFunctionContext_loop allLines i =
           (case functionNameOnLine (trim (allLines ! nat i)) of
              Some name \<Rightarrow> Inr (Some name)
            | None \<Rightarrow> getFunctionContext_loop allLines (i - 1))"
proof -
  let ?t = "trim (allLines ! nat i)"
  have f: "\<And>c. regexp_exec re_functionMatch ?t = Some c \<Longrightarrow> \<exists>g. c 2 = Some g"
    and a: "\<And>c. regexp_exec re_arrowMatch ?t = Some c \<Longrightarrow> \<exists>g. c 2 = Some g"
    and m: "\<And>c. regexp_exec re_methodMatch ?t = Some c \<Longrightarrow> \<exists>g. c 1 = Some g"
    using regexp_exec_sets_group sets_group_res by blast+
  show ?thesis
    apply (subst getFunctionContext_loop.simps)
    apply (simp only: assms if_True Let_def functionNameOnLine_def captured_def regexp_test_def)
    apply (cases "regexp_exec re_functionMatch ?t")
     apply (cases "regexp_exec re_arrowMatch ?t")
      apply (cases "regexp_exec re_methodMatch ?t")
       apply (simp del: getFunctionContext_loop.simps)
    using m apply (fastforce simp del: getFunctionContext_loop.simps)
    using a apply (fastforce simp del: getFunctionContext_loop.simps)
    using f apply (fastforce simp del: getFunctionContext_loop.simps)
    done
qed

lemma getFunctionContext_loop_none:
  "i < int (length allLines) \<Longrightarrow>
   (\<forall>j. int j \<le> i \<longrightarrow> functionNameOnLine (trim (allLines ! j)) = None) \<Longrightarrow>
   getFunctionContext_loop allLines i = Inr None"
proof (induction "nat (i + 1)" arbitrary: i)
  case 0
  then have "\<not> i \<ge> 0" by simp
  then show ?case
    by (subst getFunctionContext_loop.simps) simp
next
  case (Suc n)
  then have i: "0 \<le> i" "nat i < length allLines" and n: "n = nat (i - 1 + 1)"
    by simp_all
  have here: "functionNameOnLine (trim (allLines ! nat i)) = None"
    using Suc.prems(2) i by simp
  have "getFunctionContext_loop allLines (i - 1) = Inr None"
    using Suc.hyps(1)[OF n] Suc.prems by simp
  then show ?case
    by (simp only: getFunctionContext_loop_step[OF i] here option.case)
qed

lemma getFunctionContext_loop_first:
  "i < int (length allLines) \<Longrightarrow> int k \<le> i \<Longrightarrow>
   functionNameOnLine (trim (allLines ! k)) = Some name \<Longrightarrow>
   (\<forall>j. k < j \<and> int j \<le> i \<longrightarrow> functionNameOnLine (trim (allLines ! j)) = None) \<Longrightarrow>
   getFunctionContext_loop allLines i = Inr (Some name)"
proof (induction "nat (i + 1)" arbitrary: i)
  case 0
  then show ?case by simp
next
  case (Suc n)
  then have i: "0 \<le> i" "nat i < length allLines" and n: "n = nat (i - 1 + 1)"
    by simp_all
  show ?case
  proof (cases "k = nat i")
    case True
    then show ?thesis
      using Suc.prems(3) by (simp only: getFunctionContext_loop_step[OF i] option.case)
  next
    case False
    with Suc.prems(2) i have k: "k < nat i" "int k \<le> i - 1" by linarith+
    then have here: "functionNameOnLine (trim (allLines ! nat i)) = None"
      using Suc.prems(4) i by simp
    have "getFunctionContext_loop allLines (i - 1) = Inr (Some name)"
      using Suc.hyps(1)[OF n _ k(2) Suc.prems(3)] Suc.prems(1,4) by simp
    then show ?thesis
      by (simp only: getFunctionContext_loop_step[OF i] here option.case)
  qed
qed

text \<open>
  C7. For \<open>0 \<le> lineNumber < length(allLines)\<close>, \<open>getFunctionContext\<close> scans the lines from
  \<open>lineNumber\<close> down to 0. If no line of that range matches one of the three patterns
  (the \<open>function\<close> pattern, the arrow pattern, the method pattern on a line without
  \<open>if\<close>, \<open>for\<close> and \<open>while\<close>), it returns none. Otherwise it returns the name captured
  on the first matching line met, that is the one of highest index, by the first of the
  three patterns that matches there. In particular
  \<open>getFunctionContext(["function foo() {", "  return 1;", "}"], 1)\<close> is \<open>"foo"\<close>.
\<close>

theorem getFunctionContext_first_match:
  assumes "0 \<le> lineNumber" and "lineNumber < int (length allLines)"
  shows
    "((\<forall>i. i \<le> nat lineNumber \<longrightarrow> \<not> functionPatternMatches (trim (allLines ! i))) \<longrightarrow>
        getFunctionContext allLines lineNumber = Inr None) \<and>
     (\<forall>i. i \<le> nat lineNumber \<and> functionPatternMatches (trim (allLines ! i)) \<and>
          (\<forall>j. i < j \<and> j \<le> nat lineNumber \<longrightarrow> \<not> functionPatternMatches (trim (allLines ! j))) \<longrightarrow>
          (\<exists>name. functionNameOnLine (trim (allLines ! i)) = Some name \<and>
                  getFunctionContext allLines lineNumber = Inr (Some name))) \<and>
     getFunctionContext [js ''function foo() {'', js ''  return 1;'', js ''}''] 1
       = Inr (Some (js ''foo''))"
proof (intro conjI allI impI)
  assume "\<forall>i. i \<le> nat lineNumber \<longrightarrow> \<not> functionPatternMatches (trim (allLines ! i))"
  then have "\<forall>j. int j \<le> lineNumber \<longrightarrow> functionNameOnLine (trim (allLines ! j)) = None"
    using assms(1) by (simp add: le_nat_iff functionNameOnLine_None_iff)
  then show "getFunctionContext allLines lineNumber = Inr None"
    unfolding getFunctionContext_def
    using getFunctionContext_loop_none[OF assms(2)] by blast
next
  fix i
  assume h: "i \<le> nat lineNumber \<and> functionPatternMatches (trim (allLines ! i)) \<and>
        (\<forall>j. i < j \<and> j \<le> nat lineNumber \<longrightarrow> \<not> functionPatternMatches (trim (allLines ! j)))"
  then have i: "int i \<le> lineNumber"
    using assms(1) by linarith
  from h obtain name where name: "functionNameOnLine (trim (allLines ! i)) = Some name"
    using functionNameOnLine_None_iff[of "trim (allLines ! i)"] by (cases "functionNameOnLine (trim (allLines ! i))") auto
  from h have "\<forall>j. i < j \<and> int j \<le> lineNumber \<longrightarrow> functionNameOnLine (trim (allLines ! j)) = None"
    using assms(1) by (simp add: le_nat_iff functionNameOnLine_None_iff)
  with name i have "getFunctionContext allLines lineNumber = Inr (Some name)"
    unfolding getFunctionContext_def
    using getFunctionContext_loop_first[OF assms(2), of i name] by blast
  with name show "\<exists>name. functionNameOnLine (trim (allLines ! i)) = Some name \<and>
                  getFunctionContext allLines lineNumber = Inr (Some name)"
    by blast
next
  show "getFunctionContext [js ''function foo() {'', js ''  return 1;'', js ''}''] 1
       = Inr (Some (js ''foo''))"
    by code_simp
qed

theorem getFunctionContext_first_match_witness:
  "(0::int) \<le> 1 \<and> 1 < int (length [js ''class Bar {'', js ''  method() {}'', js ''}'']) \<and>
   functionPatternMatches (trim ([js ''class Bar {'', js ''  method() {}'', js ''}''] ! 1)) \<and>
   functionNameOnLine (trim ([js ''class Bar {'', js ''  method() {}'', js ''}''] ! 1))
     = Some (js ''method'') \<and>
   getFunctionContext [js ''class Bar {'', js ''  method() {}'', js ''}''] 1
     = Inr (Some (js ''method''))"
proof -
  let ?L = "[js ''class Bar {'', js ''  method() {}'', js ''}'']"
  have h1: "(0::int) \<le> 1" by simp
  have h2: "1 < int (length ?L)" by simp
  have m: "functionPatternMatches (trim (?L ! 1))"
    by code_simp
  have here: "functionNameOnLine (trim (?L ! 1)) = Some (js ''method'')"
    by code_simp
  have "\<forall>i. i \<le> nat 1 \<and> functionPatternMatches (trim (?L ! i)) \<and>
          (\<forall>j. i < j \<and> j \<le> nat 1 \<longrightarrow> \<not> functionPatternMatches (trim (?L ! j))) \<longrightarrow>
          (\<exists>name. functionNameOnLine (trim (?L ! i)) = Some name \<and>
                  getFunctionContext ?L 1 = Inr (Some name))"
    using getFunctionContext_first_match[OF h1 h2] by blast
  then have "1 \<le> nat 1 \<and> functionPatternMatches (trim (?L ! 1)) \<and>
          (\<forall>j. 1 < j \<and> j \<le> nat 1 \<longrightarrow> \<not> functionPatternMatches (trim (?L ! j))) \<longrightarrow>
          (\<exists>name. functionNameOnLine (trim (?L ! 1)) = Some name \<and>
                  getFunctionContext ?L 1 = Inr (Some name))"
    by blast
  with m have "\<exists>name. functionNameOnLine (trim (?L ! 1)) = Some name \<and>
                  getFunctionContext ?L 1 = Inr (Some name)"
    by simp
  with here have "getFunctionContext ?L 1 = Inr (Some (js ''method''))"
    by auto
  with h1 h2 m here show ?thesis by blast
qed

subsection \<open>The function pattern as a shape\<close>

lemma match_rep_greedy:
  "list_all (cmatch cs) u \<Longrightarrow> k (caps, pos + length u, v) = Some r \<Longrightarrow>
   (v = [] \<or> \<not> cmatch cs (hd v)) \<Longrightarrow> match_rep cs (caps, pos, u @ v) k = Some r"
proof (induction u arbitrary: pos)
  case Nil
  then show ?case by (cases v) auto
next
  case (Cons x u)
  from Cons.prems have "match_rep cs (caps, pos + 1, u @ v) k = Some r"
    using Cons.IH[of "pos + 1"] by simp
  with Cons.prems(1) show ?case by simp
qed

lemma step_star:
  "list_all (cmatch cs) u \<Longrightarrow> (v = [] \<or> \<not> cmatch cs (hd v)) \<Longrightarrow>
   matcher r (caps, pos + length u, v) k = Some res \<Longrightarrow>
   matcher (RSeq (RStar cs) r) (caps, pos, u @ v) k = Some res"
  using match_rep_greedy[of cs u "\<lambda>st'. matcher r st' k" caps pos v res] by simp

lemma step_plus:
  assumes "list_all (cmatch cs) u" "u \<noteq> []" "v = [] \<or> \<not> cmatch cs (hd v)"
    and "matcher r (caps, pos + length u, v) k = Some res"
  shows "matcher (RSeq (RPlus cs) r) (caps, pos, u @ v) k = Some res"
proof (cases u)
  case Nil
  with assms(2) show ?thesis by simp
next
  case (Cons x u')
  have "match_rep cs (caps, pos + 1, u' @ v) (\<lambda>st'. matcher r st' k) = Some res"
    using match_rep_greedy[of cs u' "\<lambda>st'. matcher r st' k" caps "pos + 1" v res] assms Cons
    by simp
  with assms(1) Cons show ?thesis by simp
qed

lemma step_grp_plus:
  assumes "list_all (cmatch cs) u" "u \<noteq> []" "v = [] \<or> \<not> cmatch cs (hd v)"
    and "matcher r (caps(n \<mapsto> u), pos + length u, v) k = Some res"
  shows "matcher (RSeq (RGrp n (RPlus cs)) r) (caps, pos, u @ v) k = Some res"
proof (cases u)
  case Nil
  with assms(2) show ?thesis by simp
next
  case (Cons x u')
  let ?k = "\<lambda>st'::mstate. matcher r
        ((fst st')(n \<mapsto> take (fst (snd st') - pos) (u @ v)), fst (snd st'), snd (snd st')) k"
  have "?k (caps, pos + 1 + length u', v) = Some res"
    using assms(4) Cons by simp
  then have "match_rep cs (caps, pos + 1, u' @ v) ?k = Some res"
    using match_rep_greedy[of cs u' ?k caps "pos + 1" v res] assms(1,3) Cons
    by simp
  with assms(1) Cons show ?thesis by simp
qed

lemma step_lit:
  "startsWith s l \<Longrightarrow> matcher r (caps, pos + length l, drop (length l) s) k = res \<Longrightarrow>
   matcher (RSeq (RLit l) r) (caps, pos, s) k = res"
  by simp

lemma step_bol:
  "matcher r (caps, 0, s) k = res \<Longrightarrow> matcher (RSeq RBol r) (caps, 0, s) k = res"
  by simp

lemma step_opt_skip:
  "\<not> startsWith s l \<Longrightarrow> matcher r (caps, pos, s) k = res \<Longrightarrow>
   matcher (RSeq (ROpt (RGrp n (RSeq (RLit l) a))) r) (caps, pos, s) k = res"
  by simp

lemma word_not_ws: "isWordChar c \<Longrightarrow> \<not> is_ws c"
  unfolding isWordChar_def isAlpha_def is_ws_def isWhiteSpace_def isLineTerminator_def cu_def
  by (auto simp: word_le_def word_less_def)

lemma not_word_paren: "\<not> isWordChar (cu CHR ''('')" "\<not> is_ws (cu CHR ''('')"
  unfolding isWordChar_def isAlpha_def is_ws_def isWhiteSpace_def isLineTerminator_def cu_def
  by (auto simp: word_le_def word_less_def)

lemma matcher_RLit_Nil: "matcher (RLit []) (caps, pos, s) k = k (caps, pos, s)"
  by (simp add: startsWith_def)

lemma step_opt_grp:
  "matcher a (caps, pos, s)
     (\<lambda>st'. if fst (snd st') = pos then None
            else matcher r ((fst st')(n \<mapsto> take (fst (snd st') - pos) s),
                            fst (snd st'), snd (snd st')) k) = Some res \<Longrightarrow>
   matcher (RSeq (ROpt (RGrp n a)) r) (caps, pos, s) k = Some res"
  by (simp cong: if_cong)

lemma step_opt_take:
  assumes "startsWith s l" "l \<noteq> []" "list_all (cmatch cs) u" "u \<noteq> []"
    and "drop (length l) s = u @ v" "v = [] \<or> \<not> cmatch cs (hd v)"
    and "matcher r (caps(n \<mapsto> l @ u), pos + length l + length u, v) k = Some res"
  shows "matcher (RSeq (ROpt (RGrp n (RSeq (RLit l) (RSeq (RPlus cs) (RLit []))))) r)
           (caps, pos, s) k = Some res"
proof (rule step_opt_grp)
  let ?k2 = "\<lambda>st'::mstate. if fst (snd st') = pos then None
            else matcher r ((fst st')(n \<mapsto> take (fst (snd st') - pos) s),
                            fst (snd st'), snd (snd st')) k"
  have s: "s = l @ u @ v"
    using assms(1,5) unfolding startsWith_def by (metis append_take_drop_id)
  have tk: "take (length l + length u) s = l @ u"
    unfolding s by simp
  have ne: "pos + length l + length u \<noteq> pos"
    using assms(2) by simp
  have "?k2 (caps, pos + length l + length u, v) = Some res"
    using assms(7) ne by (simp add: tk add.assoc)
  then have "matcher (RLit []) (caps, pos + length l + length u, v) ?k2 = Some res"
    by (simp only: matcher_RLit_Nil)
  then have "matcher (RSeq (RPlus cs) (RLit [])) (caps, pos + length l, u @ v) ?k2 = Some res"
    using assms(3,4,6) by (intro step_plus)
  then have "matcher (RSeq (RPlus cs) (RLit [])) (caps, pos + length l, drop (length l) s) ?k2
               = Some res"
    by (simp only: assms(5))
  then show "matcher (RSeq (RLit l) (RSeq (RPlus cs) (RLit []))) (caps, pos, s) ?k2 = Some res"
    using assms(1) by (intro step_lit)
qed

lemma function_tail_match:
  assumes ws1: "list_all is_ws ws1" "ws1 \<noteq> []"
    and name: "list_all isWordChar name" "name \<noteq> []"
    and ws2: "list_all is_ws ws2"
  shows "matcher
           (RSeq (RLit (js ''function'')) (RSeq (RPlus CSpace) (RSeq (RGrp 2 (RPlus CWord))
              (RSeq (RStar CSpace) (RSeq (RLit (js ''('')) (RLit []))))))
           (caps, pos, js ''function'' @ ws1 @ name @ ws2 @ js ''('' @ rest)
           (\<lambda>st. Some (fst st))
         = Some (caps(2 \<mapsto> name))"
proof -
  let ?K = "\<lambda>st::mstate. Some (fst st)"
  let ?c = "caps(2 \<mapsto> name)"
  let ?t = "js ''function'' @ ws1 @ name @ ws2 @ js ''('' @ rest"
  let ?R7 = "RSeq (RLit (js ''('')) (RLit [])"
  let ?R6 = "RSeq (RStar CSpace) ?R7"
  let ?R5 = "RSeq (RGrp 2 (RPlus CWord)) ?R6"
  let ?R4 = "RSeq (RPlus CSpace) ?R5"
  let ?R3 = "RSeq (RLit (js ''function'')) ?R4"
  let ?p0 = "pos + length (js ''function'')"
  let ?p1 = "?p0 + length ws1"
  let ?p2 = "?p1 + length name"
  let ?p3 = "?p2 + length ws2"
  have r7: "matcher ?R7 (?c, ?p3, js ''('' @ rest) ?K = Some ?c"
    by (simp add: startsWith_def js_def)
  have r6: "matcher ?R6 (?c, ?p2, ws2 @ js ''('' @ rest) ?K = Some ?c"
  proof (rule step_star)
    show "list_all (cmatch CSpace) ws2"
      using ws2 by (simp add: list_all_iff)
    show "js ''('' @ rest = [] \<or> \<not> cmatch CSpace (hd (js ''('' @ rest))"
      using not_word_paren(2) by (simp add: js_def)
    show "matcher ?R7 (?c, ?p2 + length ws2, js ''('' @ rest) ?K = Some ?c"
      by (rule r7)
  qed
  have r5: "matcher ?R5 (caps, ?p1, name @ ws2 @ js ''('' @ rest) ?K = Some ?c"
  proof (rule step_grp_plus)
    show "list_all (cmatch CWord) name"
      using name(1) by (simp add: list_all_iff)
    show "name \<noteq> []" by (rule name(2))
    show "ws2 @ js ''('' @ rest = [] \<or> \<not> cmatch CWord (hd (ws2 @ js ''('' @ rest))"
      using ws2 word_not_ws not_word_paren(1) by (cases ws2) (auto simp: js_def)
    show "matcher ?R6 (?c, ?p1 + length name, ws2 @ js ''('' @ rest) ?K = Some ?c"
      by (rule r6)
  qed
  have r4: "matcher ?R4 (caps, ?p0, ws1 @ name @ ws2 @ js ''('' @ rest) ?K = Some ?c"
  proof (rule step_plus)
    show "list_all (cmatch CSpace) ws1"
      using ws1(1) by (simp add: list_all_iff)
    show "ws1 \<noteq> []" by (rule ws1(2))
    show "name @ ws2 @ js ''('' @ rest = [] \<or> \<not> cmatch CSpace (hd (name @ ws2 @ js ''('' @ rest))"
      using name word_not_ws by (cases name) auto
    show "matcher ?R5 (caps, ?p0 + length ws1, name @ ws2 @ js ''('' @ rest) ?K = Some ?c"
      by (rule r5)
  qed
  show "matcher ?R3 (caps, pos, ?t) ?K = Some ?c"
  proof (rule step_lit)
    show "startsWith ?t (js ''function'')"
      by (simp add: startsWith_def js_def)
    have "drop (length (js ''function'')) ?t = ws1 @ name @ ws2 @ js ''('' @ rest"
      by simp
    with r4 show "matcher ?R4 (caps, ?p0, drop (length (js ''function'')) ?t) ?K = Some ?c"
      by (simp only:)
  qed
qed

lemma regexp_exec_at_0:
  "matcher r (Map.empty, 0, s) (\<lambda>st. Some (fst st)) = Some c \<Longrightarrow> regexp_exec r s = Some c"
  by (cases s) (simp_all add: regexp_exec_def)

text \<open>
  The first pattern, read as a shape: a trimmed line made of an optional \<open>async\<close> and
  white space, \<open>function\<close>, white space, a name of word characters, optional white space
  and an opening parenthesis gives that name.
\<close>

lemma functionNameOnLine_function_shape:
  assumes pre: "pre = [] \<or> (\<exists>ws0. pre = js ''async'' @ ws0 \<and> list_all is_ws ws0 \<and> ws0 \<noteq> [])"
    and ws1: "list_all is_ws ws1" "ws1 \<noteq> []"
    and name: "list_all isWordChar name" "name \<noteq> []"
    and ws2: "list_all is_ws ws2"
  shows "functionNameOnLine (pre @ js ''function'' @ ws1 @ name @ ws2 @ js ''('' @ rest)
           = Some name"
proof -
  let ?K = "\<lambda>st::mstate. Some (fst st)"
  let ?f = "js ''function'' @ ws1 @ name @ ws2 @ js ''('' @ rest"
  let ?R3 = "RSeq (RLit (js ''function'')) (RSeq (RPlus CSpace) (RSeq (RGrp 2 (RPlus CWord))
              (RSeq (RStar CSpace) (RSeq (RLit (js ''('')) (RLit [])))))"
  let ?R1 = "RSeq RBol (RSeq (ROpt (RGrp 1 (RSeq (RLit (js ''async''))
                (RSeq (RPlus CSpace) (RLit []))))) ?R3)"
  have re: "re_functionMatch = ?R1"
    by (simp add: re_functionMatch_def rseq_def)
  have "\<exists>c. matcher ?R1 (Map.empty, 0, pre @ ?f) ?K = Some c \<and> c 2 = Some name"
  proof (cases "pre = []")
    case True
    have "matcher ?R1 (Map.empty, 0, ?f) ?K = Some (Map.empty(2 \<mapsto> name))"
    proof (rule step_bol, rule step_opt_skip)
      show "\<not> startsWith ?f (js ''async'')"
        by (simp add: startsWith_def js_def cu_def)
      show "matcher ?R3 (Map.empty, 0, ?f) ?K = Some (Map.empty(2 \<mapsto> name))"
        by (rule function_tail_match[OF ws1 name ws2])
    qed
    with True show ?thesis by simp
  next
    case False
    with pre obtain ws0 where ws0: "pre = js ''async'' @ ws0" "list_all is_ws ws0" "ws0 \<noteq> []"
      by blast
    let ?caps = "(Map.empty :: captures)(1 \<mapsto> js ''async'' @ ws0)"
    have "matcher ?R1 (Map.empty, 0, pre @ ?f) ?K = Some (?caps(2 \<mapsto> name))"
    proof (rule step_bol, rule step_opt_take)
      show "startsWith (pre @ ?f) (js ''async'')"
        by (simp add: ws0(1) startsWith_def)
      show "js ''async'' \<noteq> []"
        by (simp add: js_def)
      show "list_all (cmatch CSpace) ws0"
        using ws0(2) by (simp add: list_all_iff)
      show "ws0 \<noteq> []" by (rule ws0(3))
      show "drop (length (js ''async'')) (pre @ ?f) = ws0 @ ?f"
        by (simp add: ws0(1))
      show "?f = [] \<or> \<not> cmatch CSpace (hd ?f)"
        by (simp add: js_def cu_def is_ws_def isWhiteSpace_def isLineTerminator_def)
      show "matcher ?R3 (?caps, 0 + length (js ''async'') + length ws0, ?f) ?K
              = Some (?caps(2 \<mapsto> name))"
        by (rule function_tail_match[OF ws1 name ws2])
    qed
    then show ?thesis by simp
  qed
  then obtain c where "regexp_exec re_functionMatch (pre @ ?f) = Some c" "c 2 = Some name"
    using regexp_exec_at_0[of ?R1 "pre @ ?f"] unfolding re by blast
  then show ?thesis
    by (simp add: functionNameOnLine_def regexp_test_def captured_def)
qed

subsection \<open>isInComment\<close>

lemma substring_from_drop: "substring_from s c = drop (nat c) s"
  by (auto simp: substring_from_def substring_def Let_def min_def max_def)

lemma occurs_at_Nil: "occurs_at p [] j \<longleftrightarrow> j = 0 \<and> p = []"
  by (auto simp: occurs_at_def)

lemma occurs_at_0: "occurs_at p s 0 \<longleftrightarrow> startsWith s p"
  unfolding occurs_at_def startsWith_def
  by (metis add_0 drop0 length_take min.absorb_iff2 min.commute)

lemma occurs_at_Suc: "occurs_at p (x # xs) (Suc j) \<longleftrightarrow> occurs_at p xs j"
  by (simp add: occurs_at_def)

lemma indexOf_from_none:
  "(\<forall>j. \<not> occurs_at p s j) \<Longrightarrow> indexOf_from s p k = - 1"
proof (induction s arbitrary: k)
  case Nil
  then have "\<not> occurs_at p [] 0" by blast
  then have "p \<noteq> []" by (simp add: occurs_at_Nil)
  then show ?case by simp
next
  case (Cons x xs)
  from Cons.prems have "\<not> startsWith (x # xs) p"
    using occurs_at_0 by blast
  moreover from Cons.prems have "\<forall>j. \<not> occurs_at p xs j"
    using occurs_at_Suc by blast
  ultimately show ?case
    using Cons.IH by simp
qed

lemma indexOf_from_first:
  "occurs_at p s j \<Longrightarrow> (\<forall>i<j. \<not> occurs_at p s i) \<Longrightarrow> indexOf_from s p k = int (k + j)"
proof (induction s arbitrary: k j)
  case Nil
  then show ?case by (simp add: occurs_at_Nil)
next
  case (Cons x xs)
  show ?case
  proof (cases j)
    case 0
    with Cons.prems(1) show ?thesis
      by (simp add: occurs_at_0)
  next
    case (Suc j')
    with Cons.prems have "\<not> startsWith (x # xs) p"
      using occurs_at_0 by blast
    moreover from Suc Cons.prems have "occurs_at p xs j'" "\<forall>i<j'. \<not> occurs_at p xs i"
      using occurs_at_Suc by auto
    ultimately show ?thesis
      using Cons.IH[of j' "k + 1"] Suc by simp
  qed
qed

lemma indexOf_found_iff:
  "indexOf s p \<noteq> - 1 \<longleftrightarrow> (\<exists>j. occurs_at p s j)"
proof
  assume "indexOf s p \<noteq> - 1"
  then show "\<exists>j. occurs_at p s j"
    using indexOf_from_none[of p s 0] by (auto simp: indexOf_def)
next
  assume "\<exists>j. occurs_at p s j"
  then obtain j where "occurs_at p s j" "\<forall>i<j. \<not> occurs_at p s i"
    using exists_least_iff[of "occurs_at p s"] by blast
  then show "indexOf s p \<noteq> - 1"
    using indexOf_from_first[of p s j 0] by (simp add: indexOf_def)
qed

lemma indexOf_le_iff:
  "indexOf s p \<noteq> - 1 \<and> indexOf s p \<le> c \<longleftrightarrow>
     (\<exists>k. occurs_at p s k \<and> (\<forall>j<k. \<not> occurs_at p s j) \<and> int k \<le> c)"
proof
  assume h: "indexOf s p \<noteq> - 1 \<and> indexOf s p \<le> c"
  then obtain j where j: "occurs_at p s j" "\<forall>i<j. \<not> occurs_at p s i"
    using indexOf_found_iff[of s p] exists_least_iff[of "occurs_at p s"] by blast
  then have "indexOf s p = int j"
    using indexOf_from_first[of p s j 0] by (simp add: indexOf_def)
  with h j show "\<exists>k. occurs_at p s k \<and> (\<forall>j<k. \<not> occurs_at p s j) \<and> int k \<le> c"
    by auto
next
  assume "\<exists>k. occurs_at p s k \<and> (\<forall>j<k. \<not> occurs_at p s j) \<and> int k \<le> c"
  then obtain k where k: "occurs_at p s k" "\<forall>j<k. \<not> occurs_at p s j" "int k \<le> c"
    by blast
  then have "indexOf s p = int k"
    using indexOf_from_first[of p s k 0] by (simp add: indexOf_def)
  with k show "indexOf s p \<noteq> - 1 \<and> indexOf s p \<le> c"
    by simp
qed

lemma startsWith_drop: "k \<le> length s \<Longrightarrow> startsWith (drop k s) p \<longleftrightarrow> occurs_at p s k"
proof -
  assume k: "k \<le> length s"
  have "take (length p) (drop k s) = p \<Longrightarrow> k + length p \<le> length s"
  proof -
    assume "take (length p) (drop k s) = p"
    then have "length (take (length p) (drop k s)) = length p" by simp
    then show ?thesis using k by simp
  qed
  then show ?thesis
    unfolding startsWith_def occurs_at_def by blast
qed

lemma lastIndexOf_found_iff:
  "lastIndexOf s p \<noteq> - 1 \<longleftrightarrow> (\<exists>j. occurs_at p s j)"
proof -
  have "lastIndexOf s p \<noteq> - 1 \<longleftrightarrow>
          filter (\<lambda>k. startsWith (drop k s) p) (rev [0..<length s + 1]) \<noteq> []"
    by (simp add: lastIndexOf_def split: list.split)
  also have "\<dots> \<longleftrightarrow> (\<exists>k \<le> length s. startsWith (drop k s) p)"
  proof -
    have "set (rev [0..<length s + 1]) = {k. k \<le> length s}"
      by (auto simp del: upt_Suc)
    then show ?thesis
      by (simp only: filter_empty_conv) blast
  qed
  also have "\<dots> \<longleftrightarrow> (\<exists>k. occurs_at p s k)"
  proof
    assume "\<exists>k\<le>length s. startsWith (drop k s) p"
    then show "\<exists>k. occurs_at p s k"
      using startsWith_drop[of _ s p] by blast
  next
    assume "\<exists>k. occurs_at p s k"
    then obtain k where k: "occurs_at p s k" ..
    then have "k \<le> length s" by (simp add: occurs_at_def)
    with k show "\<exists>k\<le>length s. startsWith (drop k s) p"
      using startsWith_drop[of k s p] by blast
  qed
  finally show ?thesis .
qed

lemma occurs_at_take:
  "occurs_at p (take n s) j \<longleftrightarrow> occurs_at p s j \<and> j + length p \<le> n"
  by (auto simp: occurs_at_def drop_take min_def)

lemma occurs_at_drop:
  "p \<noteq> [] \<Longrightarrow> occurs_at p (drop n s) j \<longleftrightarrow> occurs_at p s (n + j)"
  by (cases "n \<le> length s") (auto simp: occurs_at_def add.commute)

text \<open>
  C3. \<open>isInComment(line, column)\<close> is true exactly when (1) the line contains \<open>//\<close> and its
  first occurrence starts at or before \<open>column\<close>, or (2) \<open>/*\<close> occurs entirely within the
  characters before \<open>column\<close> and \<open>*/\<close> occurs within the characters from \<open>column\<close> on, or
  (3) the trimmed line begins with \<open>#\<close>. Nothing else makes it true, and nothing looks
  at string literals.
\<close>

theorem isInComment_iff:
  "isInComment line column \<longleftrightarrow>
     (\<exists>k. occurs_at (js ''//'') line k \<and> (\<forall>j<k. \<not> occurs_at (js ''//'') line j) \<and> int k \<le> column) \<or>
     ((\<exists>k. occurs_at (js ''/*'') line k \<and> int (k + 2) \<le> column) \<and>
      (\<exists>k. occurs_at (js ''*/'') line k \<and> column \<le> int k)) \<or>
     (\<exists>rest. trim line = cu CHR ''#'' # rest)"
proof -
  have b: "lastIndexOf (substring line 0 column) (js ''/*'') \<noteq> - 1 \<longleftrightarrow>
        (\<exists>k. occurs_at (js ''/*'') line k \<and> int (k + 2) \<le> column)"
    unfolding lastIndexOf_found_iff substring_0 occurs_at_take
    by (auto simp: js_def)
  have a: "indexOf (substring_from line column) (js ''*/'') \<noteq> - 1 \<longleftrightarrow>
        (\<exists>k. occurs_at (js ''*/'') line k \<and> column \<le> int k)"
  proof -
    have ne: "js ''*/'' \<noteq> []" by (simp add: js_def)
    have "(\<exists>j. occurs_at (js ''*/'') line (nat column + j)) \<longleftrightarrow>
          (\<exists>k. occurs_at (js ''*/'') line k \<and> column \<le> int k)"
    proof
      assume "\<exists>j. occurs_at (js ''*/'') line (nat column + j)"
      then obtain j where "occurs_at (js ''*/'') line (nat column + j)" ..
      moreover have "column \<le> int (nat column + j)" by simp
      ultimately show "\<exists>k. occurs_at (js ''*/'') line k \<and> column \<le> int k" by blast
    next
      assume "\<exists>k. occurs_at (js ''*/'') line k \<and> column \<le> int k"
      then obtain k where k: "occurs_at (js ''*/'') line k" "column \<le> int k" by blast
      then have "k = nat column + (k - nat column)" by simp
      with k(1) show "\<exists>j. occurs_at (js ''*/'') line (nat column + j)" by metis
    qed
    then show ?thesis
      unfolding indexOf_found_iff substring_from_drop occurs_at_drop[OF ne] .
  qed
  have h: "startsWith (trim line) (js ''#'') \<longleftrightarrow> (\<exists>rest. trim line = cu CHR ''#'' # rest)"
    by (cases "trim line") (auto simp: startsWith_def js_def)
  show ?thesis
    unfolding isInComment_def Let_def
    using indexOf_le_iff[of line "js ''//''" column] a b h
    by (simp only: if_True if_False split: if_split) blast
qed

theorem isInComment_iff_witness:
  "isInComment (js ''// foo bar'') 5 \<and>
   \<not> isInComment (js ''let x = 5; // trailing'') 3 \<and>
   isInComment (js ''let x = 5; // trailing'') 12 \<and>
   isInComment (js ''s = \"//\"; t'') 9 \<and>
   ((\<exists>k. occurs_at (js ''//'') (js ''s = \"//\"; t'') k \<and>
         (\<forall>j<k. \<not> occurs_at (js ''//'') (js ''s = \"//\"; t'') j) \<and> int k \<le> 9) \<or>
    ((\<exists>k. occurs_at (js ''/*'') (js ''s = \"//\"; t'') k \<and> int (k + 2) \<le> 9) \<and>
     (\<exists>k. occurs_at (js ''*/'') (js ''s = \"//\"; t'') k \<and> 9 \<le> int k)) \<or>
    (\<exists>rest. trim (js ''s = \"//\"; t'') = cu CHR ''#'' # rest))"
proof -
  have a: "isInComment (js ''// foo bar'') 5" by code_simp
  have b: "\<not> isInComment (js ''let x = 5; // trailing'') 3" by code_simp
  have c: "isInComment (js ''let x = 5; // trailing'') 12" by code_simp
  have d: "isInComment (js ''s = \"//\"; t'') 9" by code_simp
  from d isInComment_iff[of "js ''s = \"//\"; t''" 9] a b c show ?thesis by blast
qed

subsection \<open>Examples of the classification\<close>

lemma const_total_parts:
  "trim (js ''const total = x.value'') = js ''const total = x.value''"
  "trim (substring (js ''const total = x.value'') 0 15) = js ''const total = x''"
  "trim (substring_from (js ''const total = x.value'') (15 + int (length (js ''value'')))) = js ''e''"
  "trim (substring (js ''const total = x.value'') 0 16) = js ''const total = x.''"
  "trim (substring_from (js ''const total = x.value'') (16 + int (length (js ''value'')))) = []"
  by code_simp+

lemma const_total_tests:
  "isImportStatement (js ''const total = x.value'') (js ''value'') = False"
  "isExportStatement (js ''const total = x.value'') (js ''value'') = False"
  "isFunctionDefinition (js ''const total = x.value'') (js ''value'') (js ''const total = x'')
     (js ''e'') (js ''javascript'') = False"
  "isVariableDeclaration (js ''const total = x.value'') (js ''value'') (js ''const total = x'')
     (js ''e'') (js ''javascript'') = True"
  "isFunctionDefinition (js ''const total = x.value'') (js ''value'') (js ''const total = x.'') []
     (js ''javascript'') = False"
  "isVariableDeclaration (js ''const total = x.value'') (js ''value'') (js ''const total = x.'') []
     (js ''javascript'') = True"
  by code_simp+

lemma const_total_VARIABLE_DECLARATION:
  "\<not> isInComment_ctx ctx \<Longrightarrow> \<not> isInString_ctx ctx \<Longrightarrow>
   categorizeMatch RegExp (js ''const total = x.value'') 15 (js ''value'') ctx allLines lineNumber
     (js ''javascript'') = Inr VARIABLE_DECLARATION"
  "\<not> isInComment_ctx ctx \<Longrightarrow> \<not> isInString_ctx ctx \<Longrightarrow>
   categorizeMatch RegExp (js ''const total = x.value'') 16 (js ''value'') ctx allLines lineNumber
     (js ''javascript'') = Inr VARIABLE_DECLARATION"
  unfolding categorizeMatch_def Let_def const_total_parts
  by (simp_all only: const_total_tests if_True if_False)

text \<open>
  C5. For a context with both flags false,
  \<open>categorizeMatch("const total = x.value", 15, "value", ctx, allLines, lineNumber, "javascript")\<close>
  is claimed to be PROPERTY_ACCESS. It is not.
\<close>

theorem categorizeMatch_const_total_counterexample:
  "categorizeMatch (\<lambda>p. Inl SyntaxError) (js ''const total = x.value'') 15 (js ''value'')
     \<lparr>functionName = None, className = None, isInComment_ctx = False,
        isInString_ctx = False, surroundingLines = None, importedItems = None,
        functionArguments = None\<rparr>
     [js ''const total = x.value''] 0 (js ''javascript'') \<noteq> Inr PROPERTY_ACCESS"
  using const_total_VARIABLE_DECLARATION(1)
    [of "\<lparr>functionName = None, className = None, isInComment_ctx = False,
        isInString_ctx = False, surroundingLines = None, importedItems = None,
        functionArguments = None\<rparr>"
       "\<lambda>p. Inl SyntaxError" "[js ''const total = x.value'']" 0]
  by simp

text \<open>
  C5, amended. For a context with both flags false, the call returns VARIABLE_DECLARATION:
  the trimmed line begins with \<open>const\<close> and white space, and the variable-declaration test
  comes before the property-access test. The result is the same at column 16, where
  \<open>value\<close> starts (column 15 is the dot).
\<close>

theorem categorizeMatch_const_total:
  "\<not> isInComment_ctx ctx \<Longrightarrow> \<not> isInString_ctx ctx \<Longrightarrow>
   categorizeMatch RegExp (js ''const total = x.value'') 15 (js ''value'') ctx allLines lineNumber
     (js ''javascript'') = Inr VARIABLE_DECLARATION \<and>
   categorizeMatch RegExp (js ''const total = x.value'') 16 (js ''value'') ctx allLines lineNumber
     (js ''javascript'') = Inr VARIABLE_DECLARATION"
  using const_total_VARIABLE_DECLARATION by blast

theorem categorizeMatch_const_total_witness:
  "\<not> isInComment_ctx \<lparr>functionName = None, className = None, isInComment_ctx = False,
        isInString_ctx = False, surroundingLines = None, importedItems = None,
        functionArguments = None\<rparr> \<and>
   \<not> isInString_ctx \<lparr>functionName = None, className = None, isInComment_ctx = False,
        isInString_ctx = False, surroundingLines = None, importedItems = None,
        functionArguments = None\<rparr> \<and>
   categorizeMatch (\<lambda>p. Inl SyntaxError) (js ''const total = x.value'') 15 (js ''value'')
     \<lparr>functionName = None, className = None, isInComment_ctx = False,
        isInString_ctx = False, surroundingLines = None, importedItems = None,
        functionArguments = None\<rparr>
     [js ''const total = x.value''] 0 (js ''javascript'') = Inr VARIABLE_DECLARATION \<and>
   categorizeMatch (\<lambda>p. Inl SyntaxError) (js ''const total = x.value'') 16 (js ''value'')
     \<lparr>functionName = None, className = None, isInComment_ctx = False,
        isInString_ctx = False, surroundingLines = None, importedItems = None,
        functionArguments = None\<rparr>
     [js ''const total = x.value''] 0 (js ''javascript'') = Inr VARIABLE_DECLARATION"
  using categorizeMatch_const_total
    [of "\<lparr>functionName = None, className = None, isInComment_ctx = False,
        isInString_ctx = False, surroundingLines = None, importedItems = None,
        functionArguments = None\<rparr>"
       "\<lambda>p. Inl SyntaxError" "[js ''const total = x.value'']" 0]
  by simp

lemma foo_parts:
  "trim (js ''foo(bar)'') = js ''foo(bar)''"
  "trim (substring (js ''foo(bar)'') 0 0) = []"
  "trim (substring_from (js ''foo(bar)'') (0 + int (length (js ''foo('')))) = js ''bar)''"
  by code_simp+

lemma foo_tests:
  "isImportStatement (js ''foo(bar)'') (js ''foo('') = False"
  "isExportStatement (js ''foo(bar)'') (js ''foo('') = False"
  "isFunctionDefinition (js ''foo(bar)'') (js ''foo('') [] (js ''bar)'') (js ''typescriptreact'') = False"
  "isVariableDeclaration (js ''foo(bar)'') (js ''foo('') [] (js ''bar)'') (js ''typescriptreact'') = False"
  "isFunctionCall (js ''foo(bar)'') (js ''foo('') (js ''bar)'') = False"
  by code_simp+

lemma foo_pattern:
  "js ''<'' @ js ''foo('' @ js ''['' @ [cu (CHR 0x5C)] @ js ''s/>]'' =
   js ''<foo(['' @ [cu (CHR 0x5C)] @ js ''s/>]''"
  by (simp add: js_def)

lemma foo_language:
  "(js ''typescriptreact'' \<noteq> js ''typescriptreact'' \<and> js ''typescriptreact'' \<noteq> js ''javascriptreact'' \<and>
         js ''typescriptreact'' \<noteq> js ''vue'') = False"
  by simp

text \<open>
  C1. \<open>categorizeMatch\<close> is claimed to return one of the fourteen categories for every
  input and never to fail. With the search term \<open>foo(\<close> on the line \<open>foo(bar)\<close> of a
  \<open>typescriptreact\<close> file, no test before the component-usage test succeeds, and that
  test builds the pattern \<open><foo([\s/>]\<close> from the unescaped term. The group in it is not
  closed, so the \<open>RegExp\<close> constructor throws a \<open>SyntaxError\<close>, and so does
  \<open>categorizeMatch\<close>.
\<close>

theorem categorizeMatch_throws:
  "RegExp (js ''<foo(['' @ [cu (CHR 0x5C)] @ js ''s/>]'') = Inl SyntaxError \<Longrightarrow>
   \<not> isInComment_ctx ctx \<Longrightarrow> \<not> isInString_ctx ctx \<Longrightarrow>
   categorizeMatch RegExp (js ''foo(bar)'') 0 (js ''foo('') ctx allLines lineNumber
     (js ''typescriptreact'') = Inl SyntaxError"
  unfolding categorizeMatch_def Let_def foo_parts isComponentUsage_def foo_pattern
  by (simp only: foo_tests foo_language if_True if_False sum.case)

theorem categorizeMatch_throws_witness:
  "(\<lambda>p. if p = js ''<foo(['' @ [cu (CHR 0x5C)] @ js ''s/>]'' then Inl SyntaxError
         else Inr (\<lambda>line. False))
     (js ''<foo(['' @ [cu (CHR 0x5C)] @ js ''s/>]'') = Inl SyntaxError \<and>
   \<not> isInComment_ctx \<lparr>functionName = None, className = None, isInComment_ctx = False,
        isInString_ctx = False, surroundingLines = None, importedItems = None,
        functionArguments = None\<rparr> \<and>
   \<not> isInString_ctx \<lparr>functionName = None, className = None, isInComment_ctx = False,
        isInString_ctx = False, surroundingLines = None, importedItems = None,
        functionArguments = None\<rparr> \<and>
   categorizeMatch
     (\<lambda>p. if p = js ''<foo(['' @ [cu (CHR 0x5C)] @ js ''s/>]'' then Inl SyntaxError
          else Inr (\<lambda>line. False))
     (js ''foo(bar)'') 0 (js ''foo('')
     \<lparr>functionName = None, className = None, isInComment_ctx = False,
        isInString_ctx = False, surroundingLines = None, importedItems = None,
        functionArguments = None\<rparr>
     [js ''foo(bar)''] 0 (js ''typescriptreact'') = Inl SyntaxError"
  using categorizeMatch_throws
    [of "\<lambda>p. if p = js ''<foo(['' @ [cu (CHR 0x5C)] @ js ''s/>]'' then Inl SyntaxError
          else Inr (\<lambda>line. False)"
       "\<lparr>functionName = None, className = None, isInComment_ctx = False,
        isInString_ctx = False, surroundingLines = None, importedItems = None,
        functionArguments = None\<rparr>"
       "[js ''foo(bar)'']" 0]
  by simp

text \<open>
  Apart from that, the chain is total: when the language is none of the three that reach
  the tag patterns, or the constructor accepts both patterns, the result is a category.
\<close>

lemma categorizeMatch_total_if_RegExp_accepts:
  "languageId \<noteq> js ''typescriptreact'' \<and> languageId \<noteq> js ''javascriptreact'' \<and>
     languageId \<noteq> js ''vue'' \<or>
   (\<exists>p1 p2. RegExp (js ''<'' @ searchTerm @ js ''['' @ [cu (CHR 0x5C)] @ js ''s/>]'') = Inr p1 \<and>
            RegExp (js ''</'' @ searchTerm @ js ''>'') = Inr p2) \<Longrightarrow>
   \<exists>c. categorizeMatch RegExp lineText columnIndex searchTerm ctx allLines lineNumber languageId = Inr c"
  unfolding categorizeMatch_def Let_def isComponentUsage_def
  by (auto split: sum.split bool.split)

subsection \<open>extractImportedItems\<close>

lemma two_imports:
  "regexp_exec re_namedMatch (js ''import x from \"m\"; import * as y from \"n\"'') = None"
  "captured re_defaultMatch 1 (js ''import x from \"m\"; import * as y from \"n\"'') = Some (js ''x'')"
  "captured re_namespaceMatch 1 (js ''import x from \"m\"; import * as y from \"n\"'') = Some (js ''y'')"
  "extractImportedItems (js ''import x from \"m\"; import * as y from \"n\"'')
     = Inr [Some (js ''x''), Some (js ''y'')]"
  by code_simp+

lemma import_examples:
  "extractImportedItems (js ''import { a, b } from 'm' '') = Inr [Some (js ''a''), Some (js ''b'')]"
  "extractImportedItems (js ''import x from 'm' '') = Inr [Some (js ''x'')]"
  by code_simp+

text \<open>
  C8. It is claimed that the default-import pattern and the namespace-import pattern never
  both contribute to one result. On a line with two import statements they do.
\<close>

theorem extractImportedItems_both_counterexample:
  "regexp_exec re_namedMatch (js ''import x from \"m\"; import * as y from \"n\"'') = None \<and>
   captured re_defaultMatch 1 (js ''import x from \"m\"; import * as y from \"n\"'') = Some (js ''x'') \<and>
   captured re_namespaceMatch 1 (js ''import x from \"m\"; import * as y from \"n\"'') = Some (js ''y'') \<and>
   extractImportedItems (js ''import x from \"m\"; import * as y from \"n\"'')
     = Inr [Some (js ''x''), Some (js ''y'')]"
  using two_imports by blast

text \<open>
  C8, amended. If the line contains a named-import brace group, the result is exactly the
  comma-split, trimmed contents of the first such group, and the other two patterns are
  ignored. Otherwise the result is the name captured by the default-import pattern, if
  that pattern matches, followed by the name captured by the namespace-import pattern, if
  that pattern matches; it is empty when neither matches. In particular
  \<open>extractImportedItems("import { a, b } from 'm'")\<close> is \<open>["a", "b"]\<close> and
  \<open>extractImportedItems("import x from 'm'")\<close> is \<open>["x"]\<close>.
\<close>

theorem extractImportedItems_branches:
  "(case captured re_namedMatch 1 line of
      Some group1 \<Rightarrow>
        extractImportedItems line
          = Inr (map (\<lambda>item. Some (trim item)) (str_split (cu CHR '','') group1))
    | None \<Rightarrow>
        extractImportedItems line
          = Inr ((case captured re_defaultMatch 1 line of None \<Rightarrow> [] | Some x \<Rightarrow> [Some x]) @
                 (case captured re_namespaceMatch 1 line of None \<Rightarrow> [] | Some y \<Rightarrow> [Some y]))) \<and>
   extractImportedItems (js ''import { a, b } from 'm' '') = Inr [Some (js ''a''), Some (js ''b'')] \<and>
   extractImportedItems (js ''import x from 'm' '') = Inr [Some (js ''x'')]"
proof -
  have n: "captured re_namedMatch 1 line = None \<longleftrightarrow> regexp_exec re_namedMatch line = None"
    and d: "captured re_defaultMatch 1 line = None \<longleftrightarrow> regexp_exec re_defaultMatch line = None"
    and s: "captured re_namespaceMatch 1 line = None \<longleftrightarrow> regexp_exec re_namespaceMatch line = None"
    using captured_None_iff sets_group_res by blast+
  have "case captured re_namedMatch 1 line of
      Some group1 \<Rightarrow>
        extractImportedItems line
          = Inr (map (\<lambda>item. Some (trim item)) (str_split (cu CHR '','') group1))
    | None \<Rightarrow>
        extractImportedItems line
          = Inr ((case captured re_defaultMatch 1 line of None \<Rightarrow> [] | Some x \<Rightarrow> [Some x]) @
                 (case captured re_namespaceMatch 1 line of None \<Rightarrow> [] | Some y \<Rightarrow> [Some y]))"
  proof (cases "captured re_namedMatch 1 line")
    case (Some g)
    then show ?thesis
      by (auto simp: extractImportedItems_def captured_def split: option.splits)
  next
    case None
    with n have nn: "regexp_exec re_namedMatch line = None" by simp
    show ?thesis
      using d s unfolding None
      by (auto simp: extractImportedItems_def nn captured_def Let_def split: option.splits)
  qed
  then show ?thesis
    using import_examples by blast
qed

theorem extractImportedItems_branches_witness:
  "captured re_namedMatch 1 (js ''import x from \"m\"; import * as y from \"n\"'') = None \<and>
   extractImportedItems (js ''import x from \"m\"; import * as y from \"n\"'')
     = Inr [Some (js ''x''), Some (js ''y'')]"
proof -
  let ?L = "js ''import x from \"m\"; import * as y from \"n\"''"
  have n: "captured re_namedMatch 1 ?L = None"
    using two_imports(1) by (simp only: captured_def option.case)
  have "case captured re_namedMatch 1 ?L of
      Some group1 \<Rightarrow>
        extractImportedItems ?L
          = Inr (map (\<lambda>item. Some (trim item)) (str_split (cu CHR '','') group1))
    | None \<Rightarrow>
        extractImportedItems ?L
          = Inr ((case captured re_defaultMatch 1 ?L of None \<Rightarrow> [] | Some x \<Rightarrow> [Some x]) @
                 (case captured re_namespaceMatch 1 ?L of None \<Rightarrow> [] | Some y \<Rightarrow> [Some y]))"
    using extractImportedItems_branches[of ?L] by (rule conjunct1)
  then have "extractImportedItems ?L = Inr ([Some (js ''x'')] @ [Some (js ''y'')])"
    by (simp only: n two_imports(2,3) option.case)
  then have "extractImportedItems ?L = Inr [Some (js ''x''), Some (js ''y'')]"
    by (simp only: append.simps)
  with n show ?thesis by (rule conjI)
qed

end
